theory Spec2Isabelle
  imports Complex_Main "HOL-Library.Sublist"
begin

section \<open>ZKSync Lite manager: shared data model\<close>

text \<open>
  The exceptions the manager raises or lets through. Every \<^verbatim>\<open>raise\<close> of the source is an
  \<open>Inl\<close> value of the model; \<open>TypeError\<close>, \<open>AttributeError\<close> and \<open>IndexError\<close> are what
  Python raises on ill-shaped JSON and are caught nowhere in the manager.
\<close>

datatype error =
    RemoteError
  | DeserializationError
  | KeyError
  | TypeError
  | AttributeError
  | IndexError
  | AssertionError
  | IntegrityError

text \<open>JSON values as the API returns them; a JSON object is a Python dict.\<close>

datatype json =
    JNull
  | JBool bool
  | JInt int
  | JStr string
  | JList "json list"
  | JObj "(string \<times> json) list"

text \<open>\<^verbatim>\<open>d.get(key)\<close>: the value, or Python's \<^verbatim>\<open>None\<close> (also for a stored JSON null).\<close>

definition dict_get :: "(string \<times> json) list \<Rightarrow> string \<Rightarrow> json option" where
  "dict_get d k = (case map_of d k of None \<Rightarrow> None | Some JNull \<Rightarrow> None | Some v \<Rightarrow> Some v)"

section \<open>RemoteClient: \<^verbatim>\<open>_query_api\<close>\<close>

text \<open>
  What \<^verbatim>\<open>self.session.get\<close> does on one attempt: it raises a \<^verbatim>\<open>RequestException\<close>, or
  returns a response with a status code and a body. The body is \<open>Some d\<close> when
  \<^verbatim>\<open>jsonloads_dict\<close> parses it into the dict \<open>d\<close>, and \<open>None\<close> when it raises
  \<^verbatim>\<open>JSONDecodeError\<close>.
\<close>

datatype http_response =
    RequestException
  | Response (status_code: nat) (response_text: "(string \<times> json) list option")

definition TOO_MANY_REQUESTS :: nat where "TOO_MANY_REQUESTS = 429"
definition OK :: nat where "OK = 200"
definition backoff_limit :: nat where "backoff_limit = 33"

text \<open>
  A request is the URL path and the options of the query string. A session answers the
  \<open>n\<close>-th GET it receives, whatever the request: the server may change between calls.
\<close>

type_synonym request = "string \<times> (string \<times> json) list"
type_synonym session = "nat \<Rightarrow> request \<Rightarrow> http_response"

text \<open>
  The \<^verbatim>\<open>while backoff < backoff_limit\<close> loop. \<open>get n\<close> is the outcome of the \<open>n\<close>-th call of
  \<^verbatim>\<open>self.session.get\<close>; \<open>calls\<close> counts the GETs made so far and \<open>sleeps\<close> collects the
  arguments of \<^verbatim>\<open>gevent.sleep\<close> in order. The loop leaves through a \<^verbatim>\<open>raise\<close> (\<open>Inl\<close>),
  through \<^verbatim>\<open>return result\<close> inside the loop, or through the \<^verbatim>\<open>return result\<close> after it,
  where \<^verbatim>\<open>result\<close> still is the empty dict it was initialised with. Not returning is
  \<open>None\<close>. The \<^verbatim>\<open>log.debug\<close> traces are not modelled.
\<close>

partial_function (option) query_api_loop ::
  "(nat \<Rightarrow> http_response) \<Rightarrow> nat \<Rightarrow> nat \<Rightarrow> nat list
     \<Rightarrow> ((nat \<times> nat list) \<times> (error + json)) option"
where
  "query_api_loop get calls backoff sleeps =
     (if backoff < backoff_limit then
        (if get calls = RequestException then Some ((Suc calls, sleeps), Inl RemoteError)
         else if status_code (get calls) = TOO_MANY_REQUESTS then
           (if backoff \<ge> backoff_limit then Some ((Suc calls, sleeps), Inl RemoteError)
            else query_api_loop get (Suc calls) (backoff * 2) (sleeps @ [backoff]))
         else if status_code (get calls) \<noteq> OK then Some ((Suc calls, sleeps), Inl RemoteError)
         else (case response_text (get calls) of
                 None \<Rightarrow> Some ((Suc calls, sleeps), Inl RemoteError)
               | Some json_ret \<Rightarrow>
                   (case dict_get json_ret ''result'' of
                      None \<Rightarrow> Some ((Suc calls, sleeps), Inl RemoteError)
                    | Some result \<Rightarrow> Some ((Suc calls, sleeps), Inr result))))
      else Some ((calls, sleeps), Inr (JObj [])))"

text \<open>\<^verbatim>\<open>_query_api\<close>, called when the session has answered \<open>calls\<close> GETs: the number of
  GETs answered afterwards, the sleeps, and the exception or the returned value.\<close>

definition query_api ::
  "session \<Rightarrow> nat \<Rightarrow> request \<Rightarrow> ((nat \<times> nat list) \<times> (error + json)) option" where
  "query_api sess calls req = query_api_loop (\<lambda>n. sess n req) calls 1 []"

section \<open>NormalizedTransaction and LedgerEvent\<close>

text \<open>
  \<^verbatim>\<open>FVal\<close> is an arbitrary-precision decimal; the model computes with rationals. A
  transaction hash is the hexadecimal text of its bytes (what \<^verbatim>\<open>tx_hash.hex()\<close> prints).
\<close>

type_synonym FVal = rat
type_synonym ChecksumEvmAddress = string
type_synonym EVMTxHash = string
type_synonym Timestamp = int

record CryptoAsset =
  asset_identifier :: string
  symbol :: string
  decimals :: nat

datatype ZKSyncLiteTXType =
  TRANSFER | DEPOSIT | WITHDRAW | CHANGEPUBKEY | FORCEDEXIT | FULLEXIT | SWAP

record ZKSyncLiteSwapData =
  from_asset :: CryptoAsset
  from_amount :: FVal
  to_asset :: CryptoAsset
  to_amount :: FVal

text \<open>The fields are those of the constructor call at the end of
  \<^verbatim>\<open>_deserialize_zksync_transaction\<close>.\<close>

record ZKSyncLiteTransaction =
  tx_hash :: EVMTxHash
  tx_type :: ZKSyncLiteTXType
  timestamp :: Timestamp
  block_number :: json
  from_address :: "ChecksumEvmAddress option"
  to_address :: "ChecksumEvmAddress option"
  asset :: CryptoAsset
  amount :: FVal
  fee :: "FVal option"
  swap_data :: "ZKSyncLiteSwapData option"

text \<open>The members of \<^verbatim>\<open>HistoryEventType\<close> and \<^verbatim>\<open>HistoryEventSubType\<close> the decoder uses
  (prefixed, since both enums have a \<^verbatim>\<open>SPEND\<close> and a \<^verbatim>\<open>RECEIVE\<close>).\<close>

datatype HistoryEventType =
  ET_TRADE | ET_DEPOSIT | ET_WITHDRAWAL | ET_TRANSFER | ET_SPEND | ET_RECEIVE | ET_INFORMATIONAL

datatype HistoryEventSubType =
  ST_NONE | ST_BRIDGE | ST_FEE | ST_SPEND | ST_RECEIVE

datatype Location = ZKSYNC_LITE

text \<open>An f-string is the list of its pieces: literal text, a formatted amount, a
  formatted optional address.\<close>

datatype note_part = Lit string | Amt FVal | Addr "ChecksumEvmAddress option"

record EvmEvent =
  event_identifier :: string
  e_tx_hash :: EVMTxHash
  sequence_index :: nat
  e_timestamp :: int
  location :: Location
  event_type :: HistoryEventType
  event_subtype :: HistoryEventSubType
  e_asset :: CryptoAsset
  balance_amount :: FVal
  location_label :: "ChecksumEvmAddress option"
  e_address :: "ChecksumEvmAddress option"
  e_notes :: "note_part list"

text \<open>Modelled from the spec: the constants module is not part of the sources; an event
  identifier is derived deterministically from the transaction hash.\<close>

definition ZKL_IDENTIFIER :: "EVMTxHash \<Rightarrow> string" where
  "ZKL_IDENTIFIER h = ''zkl'' @ h"

definition ts_sec_to_ms :: "Timestamp \<Rightarrow> int" where
  "ts_sec_to_ms ts = ts * 1000"

section \<open>LedgerDecoder: the events of \<^verbatim>\<open>decode_transaction\<close>\<close>

type_synonym event_data =
  "nat \<times> HistoryEventType \<times> HistoryEventSubType \<times> CryptoAsset \<times> FVal
     \<times> ChecksumEvmAddress option \<times> ChecksumEvmAddress option \<times> note_part list"

text \<open>\<^verbatim>\<open>transaction.from_address in tracked_addresses\<close>: \<^verbatim>\<open>None\<close> is in no address list.\<close>

definition is_tracked :: "ChecksumEvmAddress option \<Rightarrow> ChecksumEvmAddress list \<Rightarrow> bool" where
  "is_tracked a tracked_addresses =
     (case a of None \<Rightarrow> False | Some x \<Rightarrow> x \<in> set tracked_addresses)"

definition bridge_suffix :: "ZKSyncLiteTransaction \<Rightarrow> note_part list" where
  "bridge_suffix transaction =
     (if from_address transaction \<noteq> to_address transaction
      then [Lit '' address '', Addr (to_address transaction)] else [])"

text \<open>
  The \<^verbatim>\<open>match transaction.tx_type\<close> statement. It returns the transaction as the statement
  leaves it (the \<^verbatim>\<open>CHANGEPUBKEY\<close> case assigns to \<^verbatim>\<open>transaction.amount\<close> and
  \<^verbatim>\<open>transaction.fee\<close>) and the \<^verbatim>\<open>event_data\<close> list; the \<^verbatim>\<open>assert\<close> of the \<^verbatim>\<open>SWAP\<close> case
  is the only raise. \<^verbatim>\<open>if transaction.fee\<close> is read as "a fee is present", the words of
  the spec (the \<^verbatim>\<open>FVal\<close> class is not part of the sources).
\<close>

definition match_tx_type ::
  "ZKSyncLiteTransaction \<Rightarrow> ChecksumEvmAddress list
     \<Rightarrow> error + (ZKSyncLiteTransaction \<times> event_data list)"
where
  "match_tx_type transaction tracked_addresses =
     (let tracked_from = is_tracked (from_address transaction) tracked_addresses;
          tracked_to = is_tracked (to_address transaction) tracked_addresses
      in case tx_type transaction of
        DEPOSIT \<Rightarrow>
          Inr (transaction,
            if tracked_to then
              [(0, ET_WITHDRAWAL, ST_BRIDGE, asset transaction, amount transaction,
                to_address transaction, None,
                [Lit ''Bridge '', Amt (amount transaction), Lit '' '',
                 Lit (symbol (asset transaction)), Lit '' from Ethereum to ZKSync Lite'']
                @ bridge_suffix transaction)]
            else [])
      | WITHDRAW \<Rightarrow>
          Inr (transaction,
            if tracked_from then
              [(0, ET_DEPOSIT, ST_BRIDGE, asset transaction, amount transaction,
                from_address transaction, to_address transaction,
                [Lit ''Bridge '', Amt (amount transaction), Lit '' '',
                 Lit (symbol (asset transaction)), Lit '' from ZKSync Lite to Ethereum'']
                @ bridge_suffix transaction)]
            else [])
      | TRANSFER \<Rightarrow>
          Inr (transaction,
            if tracked_from \<and> tracked_to then
              [(0, ET_TRANSFER, ST_NONE, asset transaction, amount transaction,
                from_address transaction, to_address transaction,
                [Lit ''Transfer '', Amt (amount transaction), Lit '' '',
                 Lit (symbol (asset transaction)), Lit '' to '', Addr (to_address transaction)])]
            else if tracked_from then
              [(0, ET_SPEND, ST_NONE, asset transaction, amount transaction,
                from_address transaction, to_address transaction,
                [Lit ''Send '', Amt (amount transaction), Lit '' '',
                 Lit (symbol (asset transaction)), Lit '' to '', Addr (to_address transaction)])]
            else if tracked_to then
              [(0, ET_RECEIVE, ST_NONE, asset transaction, amount transaction,
                to_address transaction, from_address transaction,
                [Lit ''Receive '', Amt (amount transaction), Lit '' '',
                 Lit (symbol (asset transaction)), Lit '' from '',
                 Addr (from_address transaction)])]
            else [])
      | FULLEXIT \<Rightarrow>
          Inr (transaction,
            [(0, ET_INFORMATIONAL, ST_NONE, asset transaction, amount transaction,
              from_address transaction, to_address transaction,
              [Lit ''Full'', Lit '' exit to Ethereum''] @ bridge_suffix transaction)])
      | FORCEDEXIT \<Rightarrow>
          Inr (transaction,
            [(0, ET_INFORMATIONAL, ST_NONE, asset transaction, amount transaction,
              from_address transaction, to_address transaction,
              [Lit ''Forced'', Lit '' exit to Ethereum''] @ bridge_suffix transaction)])
      | CHANGEPUBKEY \<Rightarrow>
          (case fee transaction of
             Some f \<Rightarrow>
               (let transaction = transaction\<lparr>amount := f, fee := None\<rparr> in
                Inr (transaction,
                  [(0, ET_SPEND, ST_FEE, asset transaction, amount transaction,
                    from_address transaction, to_address transaction,
                    [Lit ''Spend '', Amt (amount transaction), Lit '' ETH to ChangePubKey''])]))
           | None \<Rightarrow> Inr (transaction, []))
      | SWAP \<Rightarrow>
          (case swap_data transaction of
             None \<Rightarrow> Inl AssertionError
           | Some sd \<Rightarrow>
               Inr (transaction,
                 [(0, ET_TRADE, ST_SPEND, from_asset sd, from_amount sd,
                   from_address transaction, to_address transaction,
                   [Lit ''Swap '', Amt (from_amount sd), Lit '' '',
                    Lit (symbol (from_asset sd)), Lit '' via ZKSync Lite'']),
                  (1, ET_TRADE, ST_RECEIVE, to_asset sd, to_amount sd,
                   from_address transaction, to_address transaction,
                   [Lit ''Receive '', Amt (to_amount sd), Lit '' '',
                    Lit (symbol (to_asset sd)),
                    Lit '' as the result of a swap via ZKSync Lite''])])))"

text \<open>The \<^verbatim>\<open>for ... in event_data\<close> loop: one \<^verbatim>\<open>EvmEvent\<close> per tuple.\<close>

fun make_event :: "ZKSyncLiteTransaction \<Rightarrow> event_data \<Rightarrow> EvmEvent" where
  "make_event transaction (idx, ev_type, ev_subtype, ev_asset, ev_amount, label, target, ev_notes) =
     \<lparr>event_identifier = ZKL_IDENTIFIER (tx_hash transaction),
      e_tx_hash = tx_hash transaction,
      sequence_index = idx,
      e_timestamp = ts_sec_to_ms (timestamp transaction),
      location = ZKSYNC_LITE,
      event_type = ev_type,
      event_subtype = ev_subtype,
      e_asset = ev_asset,
      balance_amount = ev_amount,
      location_label = label,
      e_address = target,
      e_notes = ev_notes\<rparr>"

text \<open>\<^verbatim>\<open>target\<close> after the loop: \<^verbatim>\<open>None\<close> if the loop did not run, the last tuple's
  target otherwise.\<close>

fun last_target :: "event_data list \<Rightarrow> ChecksumEvmAddress option" where
  "last_target [] = None"
| "last_target ((idx, ev_type, ev_subtype, ev_asset, ev_amount, label, target, ev_notes) # rest) =
     (if rest = [] then target else last_target rest)"

definition fee_type :: "HistoryEventType \<Rightarrow> string" where
  "fee_type t =
     (if t = ET_SPEND \<or> t = ET_TRANSFER then ''Transfer''
      else if t = ET_TRADE then ''Swap''
      else ''Bridging'')"

text \<open>The trailing fee event (the sender pays).\<close>

definition append_fee_event ::
  "ZKSyncLiteTransaction \<Rightarrow> ChecksumEvmAddress option \<Rightarrow> EvmEvent list \<Rightarrow> EvmEvent list"
where
  "append_fee_event transaction target events =
     (case fee transaction of
        None \<Rightarrow> events
      | Some f \<Rightarrow>
          if length events \<noteq> 0 \<and> event_type (hd events) \<noteq> ET_RECEIVE then
            events @
            [\<lparr>event_identifier = ZKL_IDENTIFIER (tx_hash transaction),
              e_tx_hash = tx_hash transaction,
              sequence_index = sequence_index (last events) + 1,
              e_timestamp = ts_sec_to_ms (timestamp transaction),
              location = ZKSYNC_LITE,
              event_type = event_type (hd events),
              event_subtype = ST_FEE,
              e_asset = asset transaction,
              balance_amount = f,
              location_label = location_label (hd events),
              e_address = target,
              e_notes = [Lit (fee_type (event_type (hd events))), Lit '' fee of '', Amt f,
                       Lit '' '', Lit (symbol (asset transaction))]\<rparr>]
          else events)"

text \<open>Everything \<^verbatim>\<open>decode_transaction\<close> does before it opens the write cursor: the
  transaction as it leaves it, and the events it is about to store.\<close>

definition decode_events ::
  "ZKSyncLiteTransaction \<Rightarrow> ChecksumEvmAddress list
     \<Rightarrow> error + (ZKSyncLiteTransaction \<times> EvmEvent list)"
where
  "decode_events transaction tracked_addresses =
     (case match_tx_type transaction tracked_addresses of
        Inl e \<Rightarrow> Inl e
      | Inr (transaction, data) \<Rightarrow>
          Inr (transaction,
               append_fee_event transaction (last_target data)
                 (map (make_event transaction) data)))"

section \<open>The database and the manager's state\<close>

text \<open>
  A row of \<^verbatim>\<open>zksynclite_transactions\<close>: the identifier the database assigns, the nine
  columns \<^verbatim>\<open>serialize_for_db\<close> writes (the transaction without its swap data, which goes to
  \<^verbatim>\<open>zksynclite_swaps\<close>), and the \<^verbatim>\<open>is_decoded\<close> flag.
\<close>

record tx_row =
  row_identifier :: nat
  row_tx :: ZKSyncLiteTransaction
  is_decoded :: bool

text \<open>
  The tables the manager touches, the tracked accounts, the log and the websocket
  messages (total, processed). \<open>logs\<close> holds the lines \<^verbatim>\<open>log.error\<close> gets from the functions
  that read or write the database and from \<^verbatim>\<open>fetch_transactions\<close>; the lines of the
  generator and of the normalizer, which write nothing, and the \<^verbatim>\<open>log.debug\<close> traces are
  not kept.
\<close>

record state =
  zksynclite_transactions :: "tx_row list"
  zksynclite_swaps :: "(nat \<times> ZKSyncLiteSwapData) list"
  history_events :: "EvmEvent list"
  used_query_ranges :: "(string \<times> (Timestamp \<times> Timestamp)) list"
  zksync_lite_accounts :: "ChecksumEvmAddress list"
  logs :: "string list"
  ws_messages :: "(nat \<times> nat) list"

definition log_msg :: "string \<Rightarrow> state \<Rightarrow> state" where
  "log_msg m st = st\<lparr>logs := logs st @ [m]\<rparr>"

text \<open>Modelled from the spec: \<^verbatim>\<open>DBHistoryEvents.add_history_event\<close> is not part of the
  sources; \<^verbatim>\<open>appendLedgerEvents\<close> appends the event to the event store.\<close>

definition add_history_event :: "EvmEvent \<Rightarrow> state \<Rightarrow> state" where
  "add_history_event event st = st\<lparr>history_events := history_events st @ [event]\<rparr>"

text \<open>\<^verbatim>\<open>UPDATE zksynclite_transactions SET is_decoded=1 WHERE tx_hash=?\<close>\<close>

definition set_decoded :: "EVMTxHash \<Rightarrow> state \<Rightarrow> state" where
  "set_decoded h st =
     st\<lparr>zksynclite_transactions :=
          map (\<lambda>r. if tx_hash (row_tx r) = h then r\<lparr>is_decoded := True\<rparr> else r)
              (zksynclite_transactions st)\<rparr>"

definition no_fee_field :: string where
  "no_fee_field = ''Found zksync lite ChangePubKey transaction with no fee field. Skipping''"

text \<open>\<^verbatim>\<open>decode_transaction\<close>: the state after it, and either the exception it raised or the
  transaction object as the call leaves it.\<close>

definition decode_transaction ::
  "state \<Rightarrow> ZKSyncLiteTransaction \<Rightarrow> ChecksumEvmAddress list
     \<Rightarrow> state \<times> (error + ZKSyncLiteTransaction)"
where
  "decode_transaction st transaction tracked_addresses =
     (case decode_events transaction tracked_addresses of
        Inl e \<Rightarrow> (st, Inl e)
      | Inr (decoded, events) \<Rightarrow>
          (let st = (if tx_type transaction = CHANGEPUBKEY \<and> fee transaction = None
                     then log_msg no_fee_field st else st)
           in (set_decoded (tx_hash decoded) (fold add_history_event events st),
               Inr decoded)))"

definition no_swap_data :: string where
  "no_swap_data =
     ''Could not deserialize zksync lite transaction from the DB due to not finding swap data''"

definition not_a_transaction :: string where
  "not_a_transaction = ''Could not deserialize zksync lite transaction from the DB''"

text \<open>
  \<^verbatim>\<open>get_db_transactions\<close>: \<open>queryfilter\<close> is the \<^verbatim>\<open>WHERE\<close> clause as a predicate on rows;
  a stored row reads back as the transaction it was written from. The loop
  \<^verbatim>\<open>for entry in cursor\<close> takes the next row of the cursor's current result. For a
  \<^verbatim>\<open>SWAP\<close> row the swap data is queried on that same cursor, which replaces its result:
  \<^verbatim>\<open>fetchone\<close> takes the first swap row of the identifier (when there is none the row is
  logged and left out), and the loop then goes on over what is left of the swap query,
  not over the remaining transaction rows. A left-over swap row is no transaction row:
  reading it as one fails and is logged (the insert path stores one swap row per
  identifier, so none is left over), and the loop ends there.
\<close>

fun get_db_rows ::
  "(nat \<times> ZKSyncLiteSwapData) list \<Rightarrow> tx_row list \<Rightarrow> state \<Rightarrow> ZKSyncLiteTransaction list
     \<Rightarrow> state \<times> ZKSyncLiteTransaction list"
where
  "get_db_rows swaps [] st transactions = (st, transactions)"
| "get_db_rows swaps (entry # rest) st transactions =
     (let tx = row_tx entry in
      if tx_type tx = SWAP then
        (case map_of swaps (row_identifier entry) of
           None \<Rightarrow> (log_msg no_swap_data st, transactions)
         | Some swap_result \<Rightarrow>
             (fold (\<lambda>left_over. log_msg not_a_transaction)
                   (tl (filter (\<lambda>p. fst p = row_identifier entry) swaps)) st,
              transactions @ [tx\<lparr>swap_data := Some swap_result\<rparr>]))
      else get_db_rows swaps rest st (transactions @ [tx]))"

definition get_db_transactions ::
  "state \<Rightarrow> (tx_row \<Rightarrow> bool) \<Rightarrow> state \<times> ZKSyncLiteTransaction list"
where
  "get_db_transactions st queryfilter =
     get_db_rows (zksynclite_swaps st) (filter queryfilter (zksynclite_transactions st)) st []"

text \<open>\<^verbatim>\<open>DELETE FROM history_events WHERE event_identifier=?\<close>\<close>

definition delete_events :: "string \<Rightarrow> state \<Rightarrow> state" where
  "delete_events ident st =
     st\<lparr>history_events := filter (\<lambda>e. event_identifier e \<noteq> ident) (history_events st)\<rparr>"

definition add_message :: "nat \<Rightarrow> nat \<Rightarrow> state \<Rightarrow> state" where
  "add_message total_txs processed st =
     st\<lparr>ws_messages := ws_messages st @ [(total_txs, processed)]\<rparr>"

text \<open>The loop of \<^verbatim>\<open>decode_undecoded_transactions\<close> over \<^verbatim>\<open>enumerate(transactions)\<close>; an
  exception of \<^verbatim>\<open>decode_transaction\<close> ends it.\<close>

fun decode_loop ::
  "ChecksumEvmAddress list \<Rightarrow> bool \<Rightarrow> nat \<Rightarrow> nat \<Rightarrow> ZKSyncLiteTransaction list \<Rightarrow> state
     \<Rightarrow> state \<times> (error + unit)"
where
  "decode_loop tracked_addresses send_ws total_txs tx_index [] st = (st, Inr ())"
| "decode_loop tracked_addresses send_ws total_txs tx_index (transaction # rest) st =
     (case decode_transaction (delete_events (ZKL_IDENTIFIER (tx_hash transaction)) st)
             transaction tracked_addresses of
        (st, Inl e) \<Rightarrow> (st, Inl e)
      | (st, Inr _) \<Rightarrow>
          decode_loop tracked_addresses send_ws total_txs (Suc tx_index) rest
            (if send_ws \<and> tx_index mod 10 = 0 then add_message total_txs tx_index st else st))"

definition decode_undecoded_transactions ::
  "state \<Rightarrow> bool \<Rightarrow> bool \<Rightarrow> state \<times> (error + nat)"
where
  "decode_undecoded_transactions st force_redecode send_ws_notifications =
     (let queryfilter = (if \<not> force_redecode then (\<lambda>r. is_decoded r = False) else (\<lambda>r. True));
          (st, transactions) = get_db_transactions st queryfilter;
          tracked_addresses = zksync_lite_accounts st;
          total_transactions = length transactions
      in case decode_loop tracked_addresses send_ws_notifications total_transactions 0
                transactions st of
           (st, Inl e) \<Rightarrow> (st, Inl e)
         | (st, Inr _) \<Rightarrow>
             (if send_ws_notifications
              then add_message total_transactions total_transactions st else st,
              Inr (length transactions)))"

section \<open>Notions the statements about decoding use\<close>

text \<open>What two events are compared by: type, subtype, asset, amount, sequence index.\<close>

definition event_key ::
  "EvmEvent \<Rightarrow> HistoryEventType \<times> HistoryEventSubType \<times> CryptoAsset \<times> FVal \<times> nat" where
  "event_key e = (event_type e, event_subtype e, e_asset e, balance_amount e, sequence_index e)"

text \<open>The stored events of one event identifier, in storage order.\<close>

definition events_of :: "string \<Rightarrow> state \<Rightarrow> EvmEvent list" where
  "events_of ident st = filter (\<lambda>e. event_identifier e = ident) (history_events st)"

text \<open>The events a decode of \<open>transaction\<close> stores (none if it raises).\<close>

definition decoded_events ::
  "ZKSyncLiteTransaction \<Rightarrow> ChecksumEvmAddress list \<Rightarrow> EvmEvent list" where
  "decoded_events transaction tracked_addresses =
     (case decode_events transaction tracked_addresses of
        Inl e \<Rightarrow> []
      | Inr (t, events) \<Rightarrow> events)"

text \<open>What a bulk pass over \<open>txs\<close> leaves stored under one identifier, given what was
  stored under it before: each transaction with that identifier replaces it.\<close>

fun replay_events ::
  "string \<Rightarrow> ChecksumEvmAddress list \<Rightarrow> ZKSyncLiteTransaction list \<Rightarrow> EvmEvent list
     \<Rightarrow> EvmEvent list"
where
  "replay_events ident tracked_addresses [] stored = stored"
| "replay_events ident tracked_addresses (t # ts) stored =
     replay_events ident tracked_addresses ts
       (if ZKL_IDENTIFIER (tx_hash t) = ident then decoded_events t tracked_addresses
        else stored)"

text \<open>The transactions \<^verbatim>\<open>get_db_transactions\<close> builds from rows, as a function of the
  rows' identifiers and columns alone: those up to the first \<^verbatim>\<open>SWAP\<close> row, and that row
  if it has swap data.\<close>

fun rows_txs ::
  "(nat \<times> ZKSyncLiteSwapData) list \<Rightarrow> (nat \<times> ZKSyncLiteTransaction) list
     \<Rightarrow> ZKSyncLiteTransaction list"
where
  "rows_txs swaps [] = []"
| "rows_txs swaps ((i, tx) # rest) =
     (if tx_type tx = SWAP then
        (case map_of swaps i of
           None \<Rightarrow> []
         | Some sd \<Rightarrow> [tx\<lparr>swap_data := Some sd\<rparr>])
      else tx # rows_txs swaps rest)"

definition row_key :: "tx_row \<Rightarrow> nat \<times> ZKSyncLiteTransaction" where
  "row_key r = (row_identifier r, row_tx r)"

text \<open>A \<^verbatim>\<open>SWAP\<close> transaction carries its swap data.\<close>

definition swap_ok :: "ZKSyncLiteTransaction \<Rightarrow> bool" where
  "swap_ok transaction = (tx_type transaction \<noteq> SWAP \<or> swap_data transaction \<noteq> None)"

section \<open>Storing transactions: \<^verbatim>\<open>_add_zksynctxs_db\<close>\<close>

definition stored_hashes :: "state \<Rightarrow> EVMTxHash set" where
  "stored_hashes st = set (map (\<lambda>r. tx_hash (row_tx r)) (zksynclite_transactions st))"

text \<open>
  Modelled from the spec: the schema is not part of the sources; the transaction hash is
  the natural key, and an insert of a hash the table already holds is rejected with the
  storage's uniqueness violation. The accepted row gets a fresh identifier
  (\<^verbatim>\<open>lastrowid\<close>) and \<^verbatim>\<open>is_decoded = 0\<close>.
\<close>

definition insert_transaction :: "ZKSyncLiteTransaction \<Rightarrow> state \<Rightarrow> error + (state \<times> nat)" where
  "insert_transaction transaction st =
     (if tx_hash transaction \<in> stored_hashes st then Inl IntegrityError
      else
        (let row_id = Suc (fold max (map row_identifier (zksynclite_transactions st)) 0)
         in Inr (st\<lparr>zksynclite_transactions :=
                      zksynclite_transactions st @
                      [\<lparr>row_identifier = row_id,
                        row_tx = transaction\<lparr>swap_data := None\<rparr>,
                        is_decoded = False\<rparr>]\<rparr>,
                 row_id)))"

definition insert_swap :: "nat \<Rightarrow> ZKSyncLiteSwapData \<Rightarrow> state \<Rightarrow> state" where
  "insert_swap tx_id sd st = st\<lparr>zksynclite_swaps := zksynclite_swaps st @ [(tx_id, sd)]\<rparr>"

definition did_not_add :: string where
  "did_not_add = ''Did not add zksync transaction to the DB''"

text \<open>
  The loop of \<^verbatim>\<open>_add_zksynctxs_db\<close>. Each insert commits on its own; an
  \<^verbatim>\<open>IntegrityError\<close> is logged and the loop goes on with the next transaction. A \<^verbatim>\<open>SWAP\<close>
  without swap data fails at \<^verbatim>\<open>transaction.swap_data.serialize_for_db\<close>, after its row
  was committed, with an \<^verbatim>\<open>AttributeError\<close> that nothing catches.
\<close>

fun add_zksynctxs_db :: "ZKSyncLiteTransaction list \<Rightarrow> state \<Rightarrow> state \<times> (error + unit)" where
  "add_zksynctxs_db [] st = (st, Inr ())"
| "add_zksynctxs_db (transaction # rest) st =
     (case insert_transaction transaction st of
        Inl e \<Rightarrow>
          (if e = IntegrityError then add_zksynctxs_db rest (log_msg did_not_add st)
           else (st, Inl e))
      | Inr (st, row_id) \<Rightarrow>
          (if tx_type transaction = SWAP then
             (case swap_data transaction of
                None \<Rightarrow> (st, Inl AttributeError)
              | Some sd \<Rightarrow> add_zksynctxs_db rest (insert_swap row_id sd st))
           else add_zksynctxs_db rest st))"

text \<open>The transactions of a batch the table accepts, given the hashes it holds: each
  one whose hash is neither stored nor carried by an earlier one of the batch.\<close>

fun accepted :: "EVMTxHash set \<Rightarrow> ZKSyncLiteTransaction list \<Rightarrow> ZKSyncLiteTransaction list" where
  "accepted hs [] = []"
| "accepted hs (t # ts) =
     (if tx_hash t \<in> hs then accepted hs ts else t # accepted (insert (tx_hash t) hs) ts)"

section \<open>TransactionNormalizer: \<^verbatim>\<open>_deserialize_zksync_transaction\<close>\<close>

text \<open>
  What the manager uses and the sources do not contain: the deserializers of
  \<^verbatim>\<open>rotkehlchen.serialization\<close> and \<^verbatim>\<open>rotkehlchen.types\<close> (each returns its value or
  raises), Python's \<^verbatim>\<open>int(s)\<close> on a string (\<open>None\<close> is its \<^verbatim>\<open>ValueError\<close>), the two
  constants of the constants module, and the token directory \<^verbatim>\<open>self.id_to_token\<close> as \<^verbatim>\<open>_create_tokens_mapping\<close> has filled it.
\<close>

record env =
  deserialize_evm_tx_hash :: "json \<Rightarrow> error + EVMTxHash"
  deserialize_evm_address :: "json \<Rightarrow> error + ChecksumEvmAddress"
  iso8601ts_to_timestamp :: "json \<Rightarrow> error + Timestamp"
  int_of_str :: "string \<Rightarrow> int option"
  ZKSYNCLITE_MAX_LIMIT :: nat
  ZKSYNCLITE_TX_SAVEPREFIX :: string
  id_to_token :: "(json \<times> CryptoAsset) list"

definition then_do :: "error + 'a \<Rightarrow> ('a \<Rightarrow> error + 'b) \<Rightarrow> error + 'b" where
  "then_do m f = (case m of Inl e \<Rightarrow> Inl e | Inr x \<Rightarrow> f x)"

text \<open>Modelled from the spec: \<^verbatim>\<open>deserialize_int_from_str\<close> is not part of the sources;
  numeric strings are parsed as arbitrary-precision integers, and anything else is a
  deserialization failure.\<close>

definition deserialize_int_from_str :: "env \<Rightarrow> json \<Rightarrow> error + int" where
  "deserialize_int_from_str H v =
     (case v of
        JStr s \<Rightarrow> (case int_of_str H s of None \<Rightarrow> Inl DeserializationError | Some n \<Rightarrow> Inr n)
      | _ \<Rightarrow> Inl DeserializationError)"

text \<open>\<^verbatim>\<open>d[key]\<close> with a string key.\<close>

definition getitem :: "json \<Rightarrow> string \<Rightarrow> error + json" where
  "getitem d k =
     (case d of
        JObj kv \<Rightarrow> (case map_of kv k of None \<Rightarrow> Inl KeyError | Some v \<Rightarrow> Inr v)
      | _ \<Rightarrow> Inl TypeError)"

text \<open>\<^verbatim>\<open>d[idx]\<close> with a non-negative integer.\<close>

definition getindex :: "json \<Rightarrow> nat \<Rightarrow> error + json" where
  "getindex d idx =
     (case d of
        JList xs \<Rightarrow> (if idx < length xs then Inr (xs ! idx) else Inl IndexError)
      | JStr s \<Rightarrow> (if idx < length s then Inr (JStr [s ! idx]) else Inl IndexError)
      | JObj kv \<Rightarrow> Inl KeyError
      | _ \<Rightarrow> Inl TypeError)"

text \<open>\<^verbatim>\<open>d.get(key)\<close> and \<^verbatim>\<open>d.get(key, default)\<close>; only a dict has \<^verbatim>\<open>get\<close>.\<close>

definition get_or_none :: "json \<Rightarrow> string \<Rightarrow> error + json option" where
  "get_or_none d k = (case d of JObj kv \<Rightarrow> Inr (dict_get kv k) | _ \<Rightarrow> Inl AttributeError)"

definition get_or_default :: "json \<Rightarrow> string \<Rightarrow> json \<Rightarrow> error + json" where
  "get_or_default d k dflt =
     (case d of
        JObj kv \<Rightarrow> (case map_of kv k of None \<Rightarrow> Inr dflt | Some v \<Rightarrow> Inr v)
      | _ \<Rightarrow> Inl AttributeError)"

text \<open>Modelled from the spec: \<^verbatim>\<open>ZKSyncLiteTXType.deserialize\<close> is not part of the
  sources; the declared types are those of the normalizer's table.\<close>

definition deserialize_tx_type :: "json \<Rightarrow> error + ZKSyncLiteTXType" where
  "deserialize_tx_type v =
     (if v = JStr ''Transfer'' then Inr TRANSFER
      else if v = JStr ''Deposit'' then Inr DEPOSIT
      else if v = JStr ''Withdraw'' then Inr WITHDRAW
      else if v = JStr ''ChangePubKey'' then Inr CHANGEPUBKEY
      else if v = JStr ''ForcedExit'' then Inr FORCEDEXIT
      else if v = JStr ''FullExit'' then Inr FULLEXIT
      else if v = JStr ''Swap'' then Inr SWAP
      else Inl DeserializationError)"

text \<open>Modelled from the spec: \<^verbatim>\<open>asset_normalized_value\<close> is not part of the sources; it
  scales the integer by the asset's decimal precision.\<close>

definition asset_normalized_value :: "int \<Rightarrow> CryptoAsset \<Rightarrow> FVal" where
  "asset_normalized_value amount_raw a = of_int amount_raw / 10 ^ decimals a"

text \<open>\<^verbatim>\<open>_get_token_by_id\<close> on the filled directory; a list or a dict is not hashable.\<close>

definition get_token_by_id :: "env \<Rightarrow> json \<Rightarrow> error + CryptoAsset option" where
  "get_token_by_id H token_id =
     (case token_id of
        JList xs \<Rightarrow> Inl TypeError
      | JObj kv \<Rightarrow> Inl TypeError
      | _ \<Rightarrow> Inr (map_of (id_to_token H) token_id))"

text \<open>\<^verbatim>\<open>_get_token_and_amount_by_id_or_log\<close>: \<open>Inr None\<close> is the logged \<^verbatim>\<open>return None\<close>.\<close>

definition get_token_and_amount_by_id_or_log ::
  "env \<Rightarrow> json \<Rightarrow> string \<Rightarrow> string option \<Rightarrow> error + (CryptoAsset \<times> FVal) option" where
  "get_token_and_amount_by_id_or_log H entry asset_key amount_key =
     then_do (getitem entry ''op'') (\<lambda>op.
     then_do (getitem op asset_key) (\<lambda>token_id.
     then_do (get_token_by_id H token_id) (\<lambda>found.
       case found of
         None \<Rightarrow> Inr None
       | Some a \<Rightarrow>
           (case amount_key of
              None \<Rightarrow> Inr (Some (a, 0))
            | Some key \<Rightarrow>
                then_do (getitem entry ''op'') (\<lambda>op.
                then_do (getitem op key) (\<lambda>symbol_str.
                then_do (deserialize_int_from_str H symbol_str) (\<lambda>amount_raw.
                  Inr (Some (a, asset_normalized_value amount_raw a)))))))))"

text \<open>The outcome of the normalizer: the transaction, or \<^verbatim>\<open>None\<close> with the reason it
  logs.\<close>

datatype normalized = Discarded string | Normalized ZKSyncLiteTransaction

definition unknown_token :: string where
  "unknown_token = ''Skipping zksync lite transaction with unknown token id''"

definition not_finalized :: string where
  "not_finalized = ''Skipping zksync lite transaction due to status''"

definition no_sell_token :: string where
  "no_sell_token = ''Could not deserialize zksync lite swap entry sell token''"

definition could_not_deserialize :: string where
  "could_not_deserialize = ''Could not deserialize zksync lite transaction''"

text \<open>One round of \<^verbatim>\<open>for idx in (0, 1)\<close> of the \<^verbatim>\<open>SWAP\<close> case.\<close>

definition swap_leg :: "env \<Rightarrow> json \<Rightarrow> nat \<Rightarrow> error + (CryptoAsset \<times> FVal) option" where
  "swap_leg H entry idx =
     then_do (getitem entry ''op'') (\<lambda>op.
     then_do (getitem op ''orders'') (\<lambda>orders.
     then_do (getindex orders idx) (\<lambda>order.
     then_do (getitem order ''tokenSell'') (\<lambda>token_id.
     then_do (get_token_by_id H token_id) (\<lambda>found.
       case found of
         None \<Rightarrow> Inr None
       | Some swap_asset \<Rightarrow>
           then_do (getitem order ''amount'') (\<lambda>symbol_str.
           then_do (deserialize_int_from_str H symbol_str) (\<lambda>amount_raw.
             Inr (Some (swap_asset, asset_normalized_value amount_raw swap_asset)))))))))"

text \<open>
  The per-type part of the \<^verbatim>\<open>try\<close> block. It yields the hash, the addresses, the
  asset, the amount and the swap data the constructor call gets, or the reason of a
  \<^verbatim>\<open>return None\<close>. In the \<^verbatim>\<open>CHANGEPUBKEY\<close> case only \<^verbatim>\<open>asset_amount[0]\<close> is used: \<^verbatim>\<open>amount\<close>
  keeps the \<^verbatim>\<open>ZERO\<close> it was initialised with.
\<close>

type_synonym tx_fields =
  "EVMTxHash \<times> ChecksumEvmAddress option \<times> ChecksumEvmAddress option \<times> CryptoAsset \<times> FVal
     \<times> ZKSyncLiteSwapData option"

definition by_tx_type ::
  "env \<Rightarrow> json \<Rightarrow> ChecksumEvmAddress \<Rightarrow> EVMTxHash \<Rightarrow> ZKSyncLiteTXType
     \<Rightarrow> error + (string + tx_fields)"
where
  "by_tx_type H entry concerning_address tx_hash0 ty =
     then_do (getitem entry ''op'') (\<lambda>op.
       case ty of
         DEPOSIT \<Rightarrow>
           then_do (then_do (getitem op ''from'') (deserialize_evm_address H)) (\<lambda>from_addr.
           then_do (then_do (getitem op ''to'') (deserialize_evm_address H)) (\<lambda>to_addr.
           then_do (get_token_and_amount_by_id_or_log H entry ''tokenId'' (Some ''amount''))
             (\<lambda>asset_amount.
               case asset_amount of
                 None \<Rightarrow> Inr (Inl unknown_token)
               | Some (a, amt) \<Rightarrow>
                   Inr (Inr (tx_hash0, Some from_addr, Some to_addr, a, amt, None)))))
       | CHANGEPUBKEY \<Rightarrow>
           then_do (then_do (getitem op ''account'') (deserialize_evm_address H)) (\<lambda>from_addr.
           then_do (get_token_and_amount_by_id_or_log H entry ''feeToken'' (Some ''fee''))
             (\<lambda>asset_amount.
               case asset_amount of
                 None \<Rightarrow> Inr (Inl unknown_token)
               | Some (a, amt) \<Rightarrow>
                   Inr (Inr (tx_hash0, Some from_addr, None, a, 0, None))))
       | FORCEDEXIT \<Rightarrow>
           then_do (then_do (getitem op ''target'') (deserialize_evm_address H)) (\<lambda>to_addr.
           then_do (get_token_and_amount_by_id_or_log H entry ''token'' None)
             (\<lambda>asset_amount.
               case asset_amount of
                 None \<Rightarrow> Inr (Inl unknown_token)
               | Some (a, amt) \<Rightarrow>
                   Inr (Inr (tx_hash0, Some concerning_address, Some to_addr, a, amt, None))))
       | FULLEXIT \<Rightarrow>
           then_do (then_do (getitem op ''ethHash'') (deserialize_evm_tx_hash H)) (\<lambda>eth_hash.
           then_do (get_token_and_amount_by_id_or_log H entry ''tokenId'' None)
             (\<lambda>asset_amount.
               case asset_amount of
                 None \<Rightarrow> Inr (Inl unknown_token)
               | Some (a, amt) \<Rightarrow>
                   Inr (Inr (eth_hash, Some concerning_address, Some concerning_address,
                             a, amt, None))))
       | SWAP \<Rightarrow>
           then_do (get_token_and_amount_by_id_or_log H entry ''feeToken'' (Some ''fee''))
             (\<lambda>asset_amount.
               case asset_amount of
                 None \<Rightarrow> Inr (Inl unknown_token)
               | Some (a, amt) \<Rightarrow>
                   then_do (swap_leg H entry 0) (\<lambda>leg0.
                     case leg0 of
                       None \<Rightarrow> Inr (Inl no_sell_token)
                     | Some (asset0, amount0) \<Rightarrow>
                         then_do (swap_leg H entry 1) (\<lambda>leg1.
                           case leg1 of
                             None \<Rightarrow> Inr (Inl no_sell_token)
                           | Some (asset1, amount1) \<Rightarrow>
                               Inr (Inr (tx_hash0, Some concerning_address,
                                         Some concerning_address, a, amt,
                                         Some \<lparr>from_asset = asset0, from_amount = amount0,
                                               to_asset = asset1, to_amount = amount1\<rparr>)))))
       | _ \<Rightarrow>
           then_do (then_do (getitem op ''from'') (deserialize_evm_address H)) (\<lambda>from_addr.
           then_do (then_do (getitem op ''to'') (deserialize_evm_address H)) (\<lambda>to_addr.
           then_do (get_token_and_amount_by_id_or_log H entry ''token'' (Some ''amount''))
             (\<lambda>asset_amount.
               case asset_amount of
                 None \<Rightarrow> Inr (Inl unknown_token)
               | Some (a, amt) \<Rightarrow>
                   Inr (Inr (tx_hash0, Some from_addr, Some to_addr, a, amt, None))))))"

text \<open>The \<^verbatim>\<open>try\<close> block and its \<^verbatim>\<open>else\<close>: \<open>Inl\<close> is whatever it raises.\<close>

definition deserialize_try :: "env \<Rightarrow> json \<Rightarrow> ChecksumEvmAddress \<Rightarrow> error + normalized" where
  "deserialize_try H entry concerning_address =
     then_do (get_or_default entry ''status'' (JStr ''finalized'')) (\<lambda>status.
     if status \<noteq> JStr ''finalized'' then Inr (Discarded not_finalized)
     else
       then_do (then_do (getitem entry ''txHash'') (deserialize_evm_tx_hash H)) (\<lambda>tx_hash0.
       then_do (getitem entry ''op'') (\<lambda>op.
       then_do (then_do (getitem op ''type'') deserialize_tx_type) (\<lambda>ty.
       then_do (getitem entry ''blockNumber'') (\<lambda>block_no.
       then_do (then_do (getitem entry ''createdAt'') (iso8601ts_to_timestamp H)) (\<lambda>ts.
       then_do (get_or_none op ''fee'') (\<lambda>fee_str.
       then_do (case fee_str of
                  None \<Rightarrow> Inr None
                | Some s \<Rightarrow> then_do (deserialize_int_from_str H s) (\<lambda>n. Inr (Some n)))
         (\<lambda>fee_raw.
       then_do (by_tx_type H entry concerning_address tx_hash0 ty) (\<lambda>fields.
         case fields of
           Inl reason \<Rightarrow> Inr (Discarded reason)
         | Inr (tx_hash1, from_addr, to_addr, a, amt, swap) \<Rightarrow>
             Inr (Normalized
               \<lparr>tx_hash = tx_hash1, tx_type = ty, timestamp = ts, block_number = block_no,
                from_address = from_addr, to_address = to_addr, asset = a, amount = amt,
                fee = (case fee_raw of
                         None \<Rightarrow> None
                       | Some n \<Rightarrow> if n \<noteq> 0 then Some (asset_normalized_value n a) else None),
                swap_data = swap\<rparr>))))))))))"

text \<open>\<^verbatim>\<open>_deserialize_zksync_transaction\<close>: a \<^verbatim>\<open>DeserializationError\<close> or a \<^verbatim>\<open>KeyError\<close> is
  logged and gives \<^verbatim>\<open>None\<close>; any other exception goes to the caller.\<close>

definition deserialize_zksync_transaction ::
  "env \<Rightarrow> json \<Rightarrow> ChecksumEvmAddress \<Rightarrow> error + normalized" where
  "deserialize_zksync_transaction H entry concerning_address =
     (case deserialize_try H entry concerning_address of
        Inl e \<Rightarrow>
          (if e = DeserializationError \<or> e = KeyError
           then Inr (Discarded could_not_deserialize) else Inl e)
      | Inr r \<Rightarrow> Inr r)"

section \<open>PaginatedFetcher: \<^verbatim>\<open>_query_zksync_api_transactions\<close>\<close>

datatype direction = older | newer

definition direction_str :: "direction \<Rightarrow> string" where
  "direction_str d = (case d of older \<Rightarrow> ''older'' | newer \<Rightarrow> ''newer'')"

definition transactions_request :: "env \<Rightarrow> ChecksumEvmAddress \<Rightarrow> json \<Rightarrow> direction \<Rightarrow> request" where
  "transactions_request H address from_hash dir =
     (''accounts/'' @ address @ ''/transactions'',
      [(''from'', from_hash), (''limit'', JInt (int (ZKSYNCLITE_MAX_LIMIT H))),
       (''direction'', JStr (direction_str dir))])"

text \<open>What \<^verbatim>\<open>enumerate(result)\<close> runs over and \<^verbatim>\<open>len(result)\<close> counts: the items of a
  list, the keys of a dict, the characters of a string.\<close>

definition entries_of :: "json \<Rightarrow> error + json list" where
  "entries_of result =
     (case result of
        JList xs \<Rightarrow> Inr xs
      | JObj kv \<Rightarrow> Inr (map (\<lambda>p. JStr (fst p)) kv)
      | JStr s \<Rightarrow> Inr (map (\<lambda>c. JStr [c]) s)
      | _ \<Rightarrow> Inl TypeError)"

text \<open>\<^verbatim>\<open>result[-1]\<close>\<close>

definition last_item :: "json \<Rightarrow> error + json" where
  "last_item result =
     (case result of
        JList xs \<Rightarrow> (if xs = [] then Inl IndexError else Inr (last xs))
      | JStr s \<Rightarrow> (if s = [] then Inl IndexError else Inr (JStr [last s]))
      | JObj kv \<Rightarrow> Inl KeyError
      | _ \<Rightarrow> Inl TypeError)"

text \<open>
  The body of the \<^verbatim>\<open>for idx, entry in enumerate(result)\<close> loop: the first entry is passed
  over when its hash is \<^verbatim>\<open>last_tx_hash\<close>; an entry that normalizes is appended and its
  hash becomes \<^verbatim>\<open>last_tx_hash\<close>; a discarded entry changes nothing. The reasons the
  normalizer logs are not kept.
\<close>

definition page_entry ::
  "env \<Rightarrow> ChecksumEvmAddress \<Rightarrow> nat \<Rightarrow> json \<Rightarrow> ZKSyncLiteTransaction list \<Rightarrow> json
     \<Rightarrow> error + (ZKSyncLiteTransaction list \<times> json)"
where
  "page_entry H address idx entry transactions last_tx_hash =
     then_do (if idx = 0
              then then_do (getitem entry ''txHash'') (\<lambda>h. Inr (h = last_tx_hash))
              else Inr False) (\<lambda>skip.
       if skip then Inr (transactions, last_tx_hash)
       else
         then_do (deserialize_zksync_transaction H entry address) (\<lambda>outcome.
           case outcome of
             Discarded reason \<Rightarrow> Inr (transactions, last_tx_hash)
           | Normalized tx \<Rightarrow>
               then_do (getitem entry ''txHash'') (\<lambda>h. Inr (transactions @ [tx], h))))"

fun page_entries ::
  "env \<Rightarrow> ChecksumEvmAddress \<Rightarrow> nat \<Rightarrow> json list \<Rightarrow> ZKSyncLiteTransaction list \<Rightarrow> json
     \<Rightarrow> error + (ZKSyncLiteTransaction list \<times> json)"
where
  "page_entries H address idx [] transactions last_tx_hash = Inr (transactions, last_tx_hash)"
| "page_entries H address idx (entry # rest) transactions last_tx_hash =
     (case page_entry H address idx entry transactions last_tx_hash of
        Inl e \<Rightarrow> Inl e
      | Inr (transactions, last_tx_hash) \<Rightarrow>
          page_entries H address (Suc idx) rest transactions last_tx_hash)"

text \<open>One round of the \<^verbatim>\<open>while True\<close> loop up to the \<^verbatim>\<open>yield\<close>, given the response of
  \<^verbatim>\<open>_query_api\<close>: the value of \<^verbatim>\<open>result\<close>, the batch and the new \<^verbatim>\<open>last_tx_hash\<close>.\<close>

definition read_page ::
  "env \<Rightarrow> ChecksumEvmAddress \<Rightarrow> json \<Rightarrow> json
     \<Rightarrow> error + (json \<times> ZKSyncLiteTransaction list \<times> json)"
where
  "read_page H address response last_tx_hash =
     then_do (get_or_none response ''list'') (\<lambda>found.
       case found of
         None \<Rightarrow> Inl RemoteError
       | Some result \<Rightarrow>
           then_do (entries_of result) (\<lambda>entries.
           then_do (page_entries H address 0 entries [] last_tx_hash) (\<lambda>(transactions, h).
             Inr (result, transactions, h))))"

text \<open>After the \<^verbatim>\<open>yield\<close>: \<open>None\<close> is the \<^verbatim>\<open>break\<close>, otherwise the next \<^verbatim>\<open>from_hash\<close>.\<close>

definition next_from_hash :: "env \<Rightarrow> json \<Rightarrow> error + json option" where
  "next_from_hash H result =
     then_do (entries_of result) (\<lambda>entries.
       if length entries < ZKSYNCLITE_MAX_LIMIT H then Inr None
       else then_do (last_item result) (\<lambda>entry.
            then_do (getitem entry ''txHash'') (\<lambda>h. Inr (Some h))))"

text \<open>
  The generator, run to its end: the batches it yields in order, the number of GETs the
  session has answered, and how it ends (\<open>Inr ()\<close> after the terminal page, \<open>Inl\<close> the
  exception it raises). It writes nothing, so what its consumer does between two yields
  does not change what it yields. A session that never sends a short page keeps it
  running for ever: that is \<open>None\<close>.
\<close>

partial_function (option) query_zksync_api_transactions_loop ::
  "env \<Rightarrow> session \<Rightarrow> ChecksumEvmAddress \<Rightarrow> direction \<Rightarrow> nat \<Rightarrow> json \<Rightarrow> json
     \<Rightarrow> ZKSyncLiteTransaction list list
     \<Rightarrow> (ZKSyncLiteTransaction list list \<times> nat \<times> (error + unit)) option"
where
  "query_zksync_api_transactions_loop H sess address dir calls from_hash last_tx_hash yielded =
     (case query_api sess calls (transactions_request H address from_hash dir) of
        None \<Rightarrow> None
      | Some ((calls, sleeps), Inl e) \<Rightarrow> Some (yielded, calls, Inl e)
      | Some ((calls, sleeps), Inr response) \<Rightarrow>
          (case read_page H address response last_tx_hash of
             Inl e \<Rightarrow> Some (yielded, calls, Inl e)
           | Inr (result, transactions, last_tx_hash) \<Rightarrow>
               (case next_from_hash H result of
                  Inl e \<Rightarrow> Some (yielded @ [transactions], calls, Inl e)
                | Inr None \<Rightarrow> Some (yielded @ [transactions], calls, Inr ())
                | Inr (Some from_hash) \<Rightarrow>
                    query_zksync_api_transactions_loop H sess address dir calls from_hash
                      last_tx_hash (yielded @ [transactions]))))"

definition query_zksync_api_transactions ::
  "env \<Rightarrow> session \<Rightarrow> ChecksumEvmAddress \<Rightarrow> json \<Rightarrow> direction \<Rightarrow> nat
     \<Rightarrow> (ZKSyncLiteTransaction list list \<times> nat \<times> (error + unit)) option"
where
  "query_zksync_api_transactions H sess address from_hash dir calls =
     query_zksync_api_transactions_loop H sess address dir calls from_hash (JStr '''') []"

text \<open>
  The pages a fetch is served. \<open>serves H sess address from_hash dir calls pages\<close> holds when
  the successive rounds of the \<^verbatim>\<open>while True\<close> loop, started with \<^verbatim>\<open>from_hash\<close> when the
  session has answered \<open>calls\<close> GETs, are answered with the values of \<open>pages\<close> as their
  \<^verbatim>\<open>result\<close>, in this order: each call of \<^verbatim>\<open>_query_api\<close> returns a response whose
  \<^verbatim>\<open>list\<close> is the next page, and after every page but the last the loop goes on to the
  request from the hash of that page's last row.
\<close>

fun serves ::
  "env \<Rightarrow> session \<Rightarrow> ChecksumEvmAddress \<Rightarrow> json \<Rightarrow> direction \<Rightarrow> nat \<Rightarrow> json list \<Rightarrow> bool"
where
  "serves H sess address from_hash dir calls [] = True"
| "serves H sess address from_hash dir calls (result # later) =
     (case query_api sess calls (transactions_request H address from_hash dir) of
        Some ((calls, sleeps), Inr response) \<Rightarrow>
          get_or_none response ''list'' = Inr (Some result) \<and>
          (case later of
             [] \<Rightarrow> True
           | next_result # _ \<Rightarrow>
               (case next_from_hash H result of
                  Inr (Some from_hash) \<Rightarrow> serves H sess address from_hash dir calls later
                | _ \<Rightarrow> False))
      | _ \<Rightarrow> False)"

section \<open>\<^verbatim>\<open>_query_and_save_transactions_for_range\<close>\<close>

text \<open>Modelled from the spec: \<^verbatim>\<open>DBQueryRanges\<close> is not part of the sources; the watermark
  of the location is set to the range the caller has computed.\<close>

definition update_used_query_range :: "string \<Rightarrow> Timestamp \<times> Timestamp \<Rightarrow> state \<Rightarrow> state" where
  "update_used_query_range location_string queried_range st =
     st\<lparr>used_query_ranges :=
          (location_string, queried_range) #
          filter (\<lambda>p. fst p \<noteq> location_string) (used_query_ranges st)\<rparr>"

text \<open>
  The body of the \<^verbatim>\<open>for new_transactions in ...\<close> loop, over the batches in the order they
  are yielded. A set of transactions is a list without repetitions; \<^verbatim>\<open>input_transactions\<close>
  is only asked for membership.
\<close>

fun save_batches ::
  "string \<Rightarrow> direction \<Rightarrow> ZKSyncLiteTransaction list list \<Rightarrow> Timestamp \<Rightarrow> Timestamp
     \<Rightarrow> ZKSyncLiteTransaction list \<Rightarrow> state \<Rightarrow> state \<times> (error + unit)"
where
  "save_batches location_string dir [] current_start_ts current_end_ts input_transactions st =
     (st, Inr ())"
| "save_batches location_string dir (new_transactions # later) current_start_ts current_end_ts
       input_transactions st =
     (if length new_transactions = 0
      then save_batches location_string dir later current_start_ts current_end_ts
             input_transactions st
      else
        (let unique_transactions = remdups new_transactions;
             existing_txs =
               length (filter (\<lambda>t. t \<in> set input_transactions) unique_transactions);
             unique_transactions =
               (if existing_txs \<noteq> 0
                then filter (\<lambda>t. t \<notin> set input_transactions) unique_transactions
                else unique_transactions)
         in case add_zksynctxs_db unique_transactions st of
              (st, Inl e) \<Rightarrow> (st, Inl e)
            | (st, Inr u) \<Rightarrow>
                (let current_start_ts =
                       (if dir = older then timestamp (last new_transactions)
                        else current_start_ts);
                     current_end_ts =
                       (if dir = older then current_end_ts
                        else timestamp (last new_transactions));
                     st = update_used_query_range location_string
                            (current_start_ts, current_end_ts) st
                 in save_batches location_string dir later current_start_ts current_end_ts
                      (input_transactions @ unique_transactions) st)))"

text \<open>The walk: each yielded batch is saved before the generator is resumed, and what
  ends the generator ends the walk. A walk that returns gives the number of GETs
  answered so far.\<close>

definition query_and_save_transactions_for_range ::
  "env \<Rightarrow> session \<Rightarrow> state \<Rightarrow> ChecksumEvmAddress \<Rightarrow> Timestamp \<Rightarrow> Timestamp \<Rightarrow> json
     \<Rightarrow> direction \<Rightarrow> nat \<Rightarrow> (state \<times> (error + nat)) option"
where
  "query_and_save_transactions_for_range H sess st address start_ts end_ts from_hash dir calls =
     (case query_zksync_api_transactions H sess address from_hash dir calls of
        None \<Rightarrow> None
      | Some (batches, calls, ending) \<Rightarrow>
          (case save_batches (ZKSYNCLITE_TX_SAVEPREFIX H @ address) dir batches start_ts end_ts
                  [] st of
             (st, Inl e) \<Rightarrow> Some (st, Inl e)
           | (st, Inr u) \<Rightarrow>
               (case ending of
                  Inl e \<Rightarrow> Some (st, Inl e)
                | Inr u \<Rightarrow> Some (st, Inr calls))))"

section \<open>IngestionOrchestrator: \<^verbatim>\<open>fetch_transactions\<close>\<close>

text \<open>
  \<^verbatim>\<open>SELECT tx_hash, min(timestamp) from zksynclite_transactions\<close> and the same with
  \<^verbatim>\<open>max\<close>: an aggregate query gives exactly one row, the hash and timestamp of an extremal
  row, or two NULLs on an empty table.
\<close>

type_synonym hash_ts_row = "EVMTxHash option \<times> Timestamp option"

definition select_tx_hash_min_timestamp :: "state \<Rightarrow> hash_ts_row list" where
  "select_tx_hash_min_timestamp st =
     (case zksynclite_transactions st of
        [] \<Rightarrow> [(None, None)]
      | r # rs \<Rightarrow>
          (let m = fold (\<lambda>x best. if timestamp (row_tx x) < timestamp (row_tx best)
                                  then x else best) rs r
           in [(Some (tx_hash (row_tx m)), Some (timestamp (row_tx m)))]))"

definition select_tx_hash_max_timestamp :: "state \<Rightarrow> hash_ts_row list" where
  "select_tx_hash_max_timestamp st =
     (case zksynclite_transactions st of
        [] \<Rightarrow> [(None, None)]
      | r # rs \<Rightarrow>
          (let m = fold (\<lambda>x best. if timestamp (row_tx x) > timestamp (row_tx best)
                                  then x else best) rs r
           in [(Some (tx_hash (row_tx m)), Some (timestamp (row_tx m)))]))"

text \<open>\<^verbatim>\<open>cursor.fetchone()\<close>: the next row of the result and the rows left, \<^verbatim>\<open>None\<close> when
  the result is used up.\<close>

definition fetchone :: "'a list \<Rightarrow> 'a option \<times> 'a list" where
  "fetchone cursor = (case cursor of [] \<Rightarrow> (None, []) | r # rest \<Rightarrow> (Some r, rest))"

text \<open>A call of \<^verbatim>\<open>_query_and_save_transactions_for_range\<close>: start_ts, end_ts, from_hash,
  direction.\<close>

type_synonym walk = "Timestamp \<times> Timestamp \<times> string \<times> direction"

text \<open>
  \<^verbatim>\<open>fetch_transactions\<close> up to its \<^verbatim>\<open>try\<close>, and the calls its \<^verbatim>\<open>if\<close> chooses. After the
  \<^verbatim>\<open>max\<close> query the first \<^verbatim>\<open>cursor.fetchone()[0]\<close> takes the only row; the \<^verbatim>\<open>fetchone\<close> in
  the condition reads the same cursor again. \<^verbatim>\<open>max_timestamp = result[1]\<close> reads the row of
  the \<^verbatim>\<open>min\<close> query (a row with a hash has a timestamp).
\<close>

definition planned_walks ::
  "state \<Rightarrow> ChecksumEvmAddress \<Rightarrow> Timestamp \<Rightarrow> Timestamp \<Rightarrow> error + walk list"
where
  "planned_walks st address start_ts end_ts =
     (let location_string = ''zksynctxs_'' @ address;
          min_tx_hash = ''latest'';
          max_tx_hash = ''latest'';
          min_timestamp = start_ts;
          max_timestamp = end_ts;
          queried_range = map_of (used_query_ranges st) location_string;
          (result, cursor) = fetchone (select_tx_hash_min_timestamp st);
          (min_tx_hash, min_timestamp) =
            (case result of
               Some (Some h, Some ts) \<Rightarrow> (''0x'' @ h, ts)
             | _ \<Rightarrow> (min_tx_hash, min_timestamp));
          (first_row, cursor) = fetchone (select_tx_hash_max_timestamp st)
      in case first_row of
           None \<Rightarrow> Inl TypeError
         | Some (result_hash0, ts0) \<Rightarrow>
             (let (max_tx_hash, max_timestamp) =
                    (if result \<noteq> None then
                       (case fst (fetchone cursor) of
                          Some (Some h, ts1) \<Rightarrow>
                            (''0x'' @ h,
                             (case result of
                                Some (h0, Some ts) \<Rightarrow> ts
                              | _ \<Rightarrow> max_timestamp))
                        | _ \<Rightarrow> (max_tx_hash, max_timestamp))
                     else (max_tx_hash, max_timestamp))
              in case queried_range of
                   None \<Rightarrow> Inr [(start_ts, end_ts, ''latest'', older)]
                 | Some (range_start, range_end) \<Rightarrow>
                     if range_start \<noteq> 0
                     then Inr [(start_ts, min_timestamp, min_tx_hash, older),
                               (max_timestamp, end_ts, max_tx_hash, newer)]
                     else Inr [(max_timestamp, end_ts, max_tx_hash, newer)]))"

text \<open>The calls of the \<^verbatim>\<open>try\<close> block, one after the other; an exception ends them.\<close>

fun run_walks ::
  "env \<Rightarrow> session \<Rightarrow> ChecksumEvmAddress \<Rightarrow> walk list \<Rightarrow> nat \<Rightarrow> state
     \<Rightarrow> (state \<times> (error + unit)) option"
where
  "run_walks H sess address [] calls st = Some (st, Inr ())"
| "run_walks H sess address ((start_ts, end_ts, from_hash, dir) # later) calls st =
     (case query_and_save_transactions_for_range H sess st address start_ts end_ts
             (JStr from_hash) dir calls of
        None \<Rightarrow> None
      | Some (st, Inl e) \<Rightarrow> Some (st, Inl e)
      | Some (st, Inr calls) \<Rightarrow> run_walks H sess address later calls st)"

definition got_error :: string where
  "got_error = ''Got error while querying zksync lite transactions from zksync api''"

text \<open>\<^verbatim>\<open>fetch_transactions\<close>: a \<^verbatim>\<open>RemoteError\<close> of the \<^verbatim>\<open>try\<close> block is logged and the call
  returns; any other exception leaves the call.\<close>

definition fetch_transactions ::
  "env \<Rightarrow> session \<Rightarrow> state \<Rightarrow> ChecksumEvmAddress \<Rightarrow> Timestamp \<Rightarrow> Timestamp \<Rightarrow> nat
     \<Rightarrow> (state \<times> (error + unit)) option"
where
  "fetch_transactions H sess st address start_ts end_ts calls =
     (case planned_walks st address start_ts end_ts of
        Inl e \<Rightarrow> Some (st, Inl e)
      | Inr walks \<Rightarrow>
          (case run_walks H sess address walks calls st of
             None \<Rightarrow> None
           | Some (st, Inl e) \<Rightarrow>
               (if e = RemoteError then Some (log_msg got_error st, Inr ())
                else Some (st, Inl e))
           | Some (st, Inr u) \<Rightarrow> Some (st, Inr ())))"

section \<open>Example values\<close>

definition A_ETH :: CryptoAsset where
  "A_ETH = \<lparr>asset_identifier = ''ETH'', symbol = ''ETH'', decimals = 18\<rparr>"

definition A_DAI :: CryptoAsset where
  "A_DAI = \<lparr>asset_identifier = ''DAI'', symbol = ''DAI'', decimals = 18\<rparr>"

definition example_tx :: "ZKSyncLiteTXType \<Rightarrow> EVMTxHash \<Rightarrow> ZKSyncLiteTransaction" where
  "example_tx ty h =
     \<lparr>tx_hash = h, tx_type = ty, timestamp = 1700000000, block_number = JInt 7,
      from_address = Some ''0xA'', to_address = Some ''0xB'', asset = A_ETH, amount = 5,
      fee = Some (1 / 1000), swap_data = None\<rparr>"

definition example_swap_data :: ZKSyncLiteSwapData where
  "example_swap_data =
     \<lparr>from_asset = A_ETH, from_amount = 2, to_asset = A_DAI, to_amount = 4000\<rparr>"

definition example_state :: "ZKSyncLiteTransaction list \<Rightarrow> state" where
  "example_state txs =
     \<lparr>zksynclite_transactions =
        map (\<lambda>(i, t). \<lparr>row_identifier = Suc i, row_tx = t\<lparr>swap_data := None\<rparr>, is_decoded = False\<rparr>)
            (enumerate 0 txs),
      zksynclite_swaps =
        concat (map (\<lambda>(i, t). case swap_data t of None \<Rightarrow> [] | Some sd \<Rightarrow> [(Suc i, sd)])
                    (enumerate 0 txs)),
      history_events = [],
      used_query_ranges = [],
      zksync_lite_accounts = [''0xA''],
      logs = [],
      ws_messages = []\<rparr>"

text \<open>Stand-ins for the deserializers: an address or a hash is any string, an amount is a
  string of decimal digits, and one timestamp is known.\<close>

definition digit_of :: "char \<Rightarrow> int option" where
  "digit_of c =
     (let n = (of_char c :: nat) in if 48 \<le> n \<and> n \<le> 57 then Some (int n - 48) else None)"

fun parse_digits :: "string \<Rightarrow> int \<Rightarrow> int option" where
  "parse_digits [] acc = Some acc"
| "parse_digits (c # cs) acc =
     (case digit_of c of None \<Rightarrow> None | Some d \<Rightarrow> parse_digits cs (acc * 10 + d))"

definition example_int_of_str :: "string \<Rightarrow> int option" where
  "example_int_of_str s = (if s = [] then None else parse_digits s 0)"

definition example_str :: "json \<Rightarrow> error + string" where
  "example_str v = (case v of JStr s \<Rightarrow> Inr s | _ \<Rightarrow> Inl DeserializationError)"

definition example_ts :: "json \<Rightarrow> error + Timestamp" where
  "example_ts v =
     (if v = JStr ''2023-11-14T22:13:20Z'' then Inr 1700000000 else Inl DeserializationError)"

definition example_env :: env where
  "example_env =
     \<lparr>deserialize_evm_tx_hash = example_str,
      deserialize_evm_address = example_str,
      iso8601ts_to_timestamp = example_ts,
      int_of_str = example_int_of_str,
      ZKSYNCLITE_MAX_LIMIT = 2,
      ZKSYNCLITE_TX_SAVEPREFIX = ''zksynctxs_'',
      id_to_token = [(JInt 0, A_ETH), (JInt 1, A_DAI)]\<rparr>"

definition example_entry :: "string \<Rightarrow> string \<Rightarrow> string \<Rightarrow> (string \<times> json) list \<Rightarrow> json" where
  "example_entry ty h status op_fields =
     JObj [(''txHash'', JStr h), (''blockNumber'', JInt 7),
           (''createdAt'', JStr ''2023-11-14T22:13:20Z''), (''status'', JStr status),
           (''op'', JObj ((''type'', JStr ty) # op_fields))]"

definition changepubkey_entry :: json where
  "changepubkey_entry =
     example_entry ''ChangePubKey'' ''aa'' ''finalized''
       [(''account'', JStr ''0xA''), (''feeToken'', JInt 0), (''fee'', JStr ''1000000000000000'')]"

definition deposit_entry :: "string \<Rightarrow> string \<Rightarrow> json" where
  "deposit_entry h status =
     example_entry ''Deposit'' h status
       [(''from'', JStr ''0xA''), (''to'', JStr ''0xB''), (''tokenId'', JInt 0),
        (''amount'', JStr ''5000000000000000000'')]"

definition deposit_tx :: "string \<Rightarrow> ZKSyncLiteTransaction" where
  "deposit_tx h =
     \<lparr>tx_hash = h, tx_type = DEPOSIT, timestamp = 1700000000, block_number = JInt 7,
      from_address = Some ''0xA'', to_address = Some ''0xB'', asset = A_ETH, amount = 5,
      fee = None, swap_data = None\<rparr>"

definition ok_page :: "json list \<Rightarrow> http_response" where
  "ok_page entries = Response 200 (Some [(''result'', JObj [(''list'', JList entries)])])"

text \<open>A session whose first page is full and ends on a row that is not finalized, and
  whose second page starts with that row and is short.\<close>

definition overlap_session :: session where
  "overlap_session n req =
     (if n = 0 then ok_page [deposit_entry ''aa'' ''finalized'', deposit_entry ''bb'' ''committed'']
      else ok_page [deposit_entry ''bb'' ''committed''])"

text \<open>A session whose first page is full and whose second GET fails.\<close>

definition failing_session :: session where
  "failing_session n req =
     (if n = 0 then ok_page [deposit_entry ''aa'' ''finalized'', deposit_entry ''cc'' ''finalized'']
      else Response 500 None)"

text \<open>A session of three pages, each starting with the last row of the one before.\<close>

definition three_page_session :: session where
  "three_page_session n req =
     (if n = 0 then ok_page [deposit_entry ''aa'' ''finalized'', deposit_entry ''cc'' ''finalized'']
      else if n = 1
      then ok_page [deposit_entry ''cc'' ''finalized'', deposit_entry ''dd'' ''finalized'']
      else ok_page [deposit_entry ''dd'' ''finalized''])"

section \<open>Properties of \<^verbatim>\<open>_query_api\<close>\<close>

lemma query_api_loop_returns:
  "0 < backoff \<Longrightarrow> query_api_loop get calls backoff sleeps \<noteq> None"
proof (induction "backoff_limit - backoff" arbitrary: backoff calls sleeps rule: less_induct)
  case less
  show ?case
  proof (cases "backoff < backoff_limit")
    case False
    then show ?thesis by (subst query_api_loop.simps) simp
  next
    case True
    have "backoff_limit - backoff * 2 < backoff_limit - backoff"
      using True less.prems by simp
    then have "query_api_loop get (Suc calls) (backoff * 2) (sleeps @ [backoff]) \<noteq> None"
      using less.hyps [of "backoff * 2" "Suc calls" "sleeps @ [backoff]"] less.prems by simp
    then show ?thesis
      by (subst query_api_loop.simps) (simp split: option.splits)
  qed
qed

lemma query_api_returns: "\<exists>r. query_api sess calls req = Some r"
  using query_api_loop_returns [of 1 "\<lambda>n. sess n req" calls "[]"]
  by (simp add: query_api_def)

lemma query_api_all_429:
  assumes "\<forall>n. sess n req \<noteq> RequestException \<and> status_code (sess n req) = TOO_MANY_REQUESTS"
  shows "query_api sess calls req
           = Some ((calls + 6, [1, 2, 4, 8, 16, 32]), Inr (JObj []))"
proof -
  have step: "b < backoff_limit \<Longrightarrow>
      query_api_loop (\<lambda>n. sess n req) c b sl
        = query_api_loop (\<lambda>n. sess n req) (Suc c) (b * 2) (sl @ [b])" for c b sl
    using assms by (subst query_api_loop.simps) simp
  have stop: "\<not> b < backoff_limit \<Longrightarrow>
      query_api_loop (\<lambda>n. sess n req) c b sl = Some ((c, sl), Inr (JObj []))" for c b sl
    by (subst query_api_loop.simps) simp
  show ?thesis
    by (simp add: query_api_def step stop backoff_limit_def)
qed

text \<open>
  C1. A server that answers 429 on every attempt: after six GETs and sleeps of 1, 2, 4, 8,
  16 and 32 units (63 in all) the loop condition fails with \<open>backoff = 64\<close>, and the call
  returns the empty dict. The \<^verbatim>\<open>raise RemoteError\<close> guarded by
  \<^verbatim>\<open>backoff >= backoff_limit\<close> is inside the loop, where \<^verbatim>\<open>backoff < backoff_limit\<close> holds,
  so it is never reached: no \<open>RemoteError\<close> is raised.
\<close>

theorem query_api_always_429_returns_empty:
  "query_api (\<lambda>n req. Response 429 None) 0 (''tokens'', []) =
     Some ((6, [1, 2, 4, 8, 16, 32]), Inr (JObj []))"
  unfolding query_api_def
  by (simp add: query_api_loop.simps backoff_limit_def TOO_MANY_REQUESTS_def)

section \<open>Properties of the decoder and of the bulk decode pass\<close>

lemma decode_events_identifier:
  "decode_events tx tr = Inr (tx', evs) \<Longrightarrow>
     tx_hash tx' = tx_hash tx \<and> (\<forall>e\<in>set evs. event_identifier e = ZKL_IDENTIFIER (tx_hash tx))"
  by (cases "tx_type tx")
     (auto simp: decode_events_def match_tx_type_def Let_def append_fee_event_def
           split: sum.splits option.splits prod.splits if_splits)

lemma decode_events_swap_ok:
  "swap_ok tx \<Longrightarrow> \<exists>tx' evs. decode_events tx tr = Inr (tx', evs)"
  by (cases "tx_type tx")
     (auto simp: decode_events_def match_tx_type_def Let_def swap_ok_def
           split: sum.splits option.splits prod.splits if_splits)

lemma get_db_rows_txs:
  "snd (get_db_rows swaps rows st acc) = acc @ rows_txs swaps (map row_key rows)"
  by (induction rows arbitrary: st acc)
     (auto simp: row_key_def Let_def split: option.splits)

lemma fold_log_msg:
  "fold (\<lambda>x. log_msg m) xs st = st\<lparr>logs := logs st @ replicate (length xs) m\<rparr>"
  by (induction xs arbitrary: st) (simp_all add: log_msg_def replicate_app_Cons_same)

lemma get_db_rows_state:
  "\<exists>l. fst (get_db_rows swaps rows st acc) = st\<lparr>logs := l\<rparr>"
proof (induction rows arbitrary: st acc)
  case Nil
  have "st = st\<lparr>logs := logs st\<rparr>" by simp
  then show ?case by (metis fst_conv get_db_rows.simps(1))
next
  case (Cons entry rest)
  show ?case
  proof (cases "tx_type (row_tx entry) = SWAP")
    case True
    then show ?thesis
      by (auto simp: Let_def log_msg_def fold_log_msg split: option.splits)
  next
    case False
    then show ?thesis using Cons.IH by (simp add: Let_def)
  qed
qed

lemma rows_txs_swap_ok: "t \<in> set (rows_txs swaps keys) \<Longrightarrow> swap_ok t"
proof (induction swaps keys rule: rows_txs.induct)
  case (1 swaps)
  then show ?case by simp
next
  case (2 swaps i tx rest)
  show ?case
  proof (cases "tx_type tx = SWAP")
    case True
    with "2.prems" obtain sd where "t = tx\<lparr>swap_data := Some sd\<rparr>"
      by (auto split: option.splits)
    then show ?thesis by (simp add: swap_ok_def)
  next
    case False
    with "2.prems" "2.IH" show ?thesis by (auto simp: swap_ok_def)
  qed
qed

lemma rows_txs_hash:
  "t \<in> set (rows_txs swaps keys) \<Longrightarrow> \<exists>k\<in>set keys. tx_hash (snd k) = tx_hash t"
  by (induction swaps keys rule: rows_txs.induct)
     (auto split: if_splits option.splits)

lemma fold_add_history_event:
  "fold add_history_event evs st = st\<lparr>history_events := history_events st @ evs\<rparr>"
  by (induction evs arbitrary: st) (simp_all add: add_history_event_def)

lemma replay_events_cong:
  "events_of i st = events_of i st' \<Longrightarrow> replay_events i tr ts (events_of i st) = replay_events i tr ts (events_of i st')"
  by simp

lemma decode_loop_effect:
  assumes "\<forall>t\<in>set txs. swap_ok t"
  shows "\<exists>st'. decode_loop tr ws tot k txs st = (st', Inr ()) \<and>
           zksynclite_swaps st' = zksynclite_swaps st \<and>
           zksync_lite_accounts st' = zksync_lite_accounts st \<and>
           map row_key (zksynclite_transactions st') = map row_key (zksynclite_transactions st) \<and>
           (\<forall>i. events_of i st' = replay_events i tr txs (events_of i st))"
  using assms
proof (induction txs arbitrary: st k)
  case Nil
  then show ?case by simp
next
  case (Cons t ts)
  then have ok: "swap_ok t" by simp
  then obtain t' evs where d: "decode_events t tr = Inr (t', evs)"
    using decode_events_swap_ok by blast
  then have ids: "tx_hash t' = tx_hash t"
      "\<forall>e\<in>set evs. event_identifier e = ZKL_IDENTIFIER (tx_hash t)"
    using decode_events_identifier by blast+
  define st0 where "st0 = (if tx_type t = CHANGEPUBKEY \<and> fee t = None
      then log_msg no_fee_field (delete_events (ZKL_IDENTIFIER (tx_hash t)) st)
      else delete_events (ZKL_IDENTIFIER (tx_hash t)) st)"
  define st1 where "st1 = set_decoded (tx_hash t') (fold add_history_event evs st0)"
  define st2 where "st2 = (if ws \<and> k mod 10 = 0 then add_message tot k st1 else st1)"
  have step: "decode_loop tr ws tot k (t # ts) st = decode_loop tr ws tot (Suc k) ts st2"
    using d by (simp add: decode_transaction_def st1_def st2_def st0_def Let_def)
  have hist: "history_events st2 =
      filter (\<lambda>e. event_identifier e \<noteq> ZKL_IDENTIFIER (tx_hash t)) (history_events st) @ evs"
    by (simp add: st2_def st1_def st0_def set_decoded_def fold_add_history_event
          delete_events_def add_message_def log_msg_def)
  have swaps: "zksynclite_swaps st2 = zksynclite_swaps st"
    by (simp add: st2_def st1_def st0_def set_decoded_def fold_add_history_event
          delete_events_def add_message_def log_msg_def)
  have accts: "zksync_lite_accounts st2 = zksync_lite_accounts st"
    by (simp add: st2_def st1_def st0_def set_decoded_def fold_add_history_event
          delete_events_def add_message_def log_msg_def)
  have rows: "map row_key (zksynclite_transactions st2) = map row_key (zksynclite_transactions st)"
    by (simp add: st2_def st1_def st0_def set_decoded_def fold_add_history_event
          delete_events_def add_message_def row_key_def log_msg_def)
  have ev: "events_of i st2 =
      (if ZKL_IDENTIFIER (tx_hash t) = i then decoded_events t tr else events_of i st)" for i
  proof (cases "ZKL_IDENTIFIER (tx_hash t) = i")
    case True
    have "filter (\<lambda>e. event_identifier e = i) evs = evs"
      using ids(2) True by (simp add: filter_id_conv)
    moreover have "filter (\<lambda>e. event_identifier e = i)
        (filter (\<lambda>e. event_identifier e \<noteq> i) (history_events st)) = []"
      by (simp add: filter_empty_conv)
    ultimately show ?thesis
      using True d by (simp add: events_of_def hist decoded_events_def)
  next
    case False
    have "filter (\<lambda>e. event_identifier e = i) evs = []"
      using ids(2) False by (auto simp: filter_empty_conv)
    moreover have "filter (\<lambda>e. event_identifier e = i)
        (filter (\<lambda>e. event_identifier e \<noteq> ZKL_IDENTIFIER (tx_hash t)) (history_events st))
        = filter (\<lambda>e. event_identifier e = i) (history_events st)"
      using False by (auto intro: filter_cong)
    ultimately show ?thesis
      using False by (simp add: events_of_def hist)
  qed
  from Cons.prems have "\<forall>t\<in>set ts. swap_ok t" by simp
  from Cons.IH [OF this, of "Suc k" st2]
  obtain st' where r: "decode_loop tr ws tot (Suc k) ts st2 = (st', Inr ())"
      "zksynclite_swaps st' = zksynclite_swaps st2"
      "zksync_lite_accounts st' = zksync_lite_accounts st2"
      "map row_key (zksynclite_transactions st') = map row_key (zksynclite_transactions st2)"
      "\<forall>i. events_of i st' = replay_events i tr ts (events_of i st2)"
    by blast
  have "\<forall>i. events_of i st' = replay_events i tr (t # ts) (events_of i st)"
    using r(5) ev by simp
  then show ?case
    using step r(1-4) swaps accts rows by simp
qed

lemma replay_events_overwrites:
  "\<exists>t\<in>set txs. ZKL_IDENTIFIER (tx_hash t) = i \<Longrightarrow>
     replay_events i tr txs stored = replay_events i tr txs stored'"
proof (induction txs arbitrary: stored stored')
  case Nil
  then show ?case by simp
next
  case (Cons t ts)
  show ?case
  proof (cases "\<exists>t\<in>set ts. ZKL_IDENTIFIER (tx_hash t) = i")
    case True
    then show ?thesis using Cons.IH by simp
  next
    case False
    then have "ZKL_IDENTIFIER (tx_hash t) = i" using Cons.prems by auto
    then show ?thesis by simp
  qed
qed

lemma replay_events_untouched:
  "\<not> (\<exists>t\<in>set txs. ZKL_IDENTIFIER (tx_hash t) = i) \<Longrightarrow>
     replay_events i tr txs stored = stored"
  by (induction txs arbitrary: stored) auto

lemma replay_events_idem:
  "replay_events i tr txs (replay_events i tr txs stored) = replay_events i tr txs stored"
proof (cases "\<exists>t\<in>set txs. ZKL_IDENTIFIER (tx_hash t) = i")
  case True
  then show ?thesis using replay_events_overwrites by blast
next
  case False
  then show ?thesis by (simp add: replay_events_untouched)
qed

lemma bulk_pass_effect:
  fixes st :: state
  defines "txs \<equiv> rows_txs (zksynclite_swaps st) (map row_key (zksynclite_transactions st))"
  shows "\<exists>st'. decode_undecoded_transactions st True ws = (st', Inr (length txs)) \<and>
           zksynclite_swaps st' = zksynclite_swaps st \<and>
           zksync_lite_accounts st' = zksync_lite_accounts st \<and>
           map row_key (zksynclite_transactions st') = map row_key (zksynclite_transactions st) \<and>
           (\<forall>i. events_of i st' = replay_events i (zksync_lite_accounts st) txs (events_of i st))"
proof -
  obtain st0 ts where g: "get_db_transactions st (\<lambda>r. True) = (st0, ts)"
    by (cases "get_db_transactions st (\<lambda>r. True)") auto
  have ts: "ts = txs"
    using g get_db_rows_txs [of "zksynclite_swaps st" "zksynclite_transactions st" st "[]"]
    by (simp add: get_db_transactions_def txs_def)
  obtain l where st0: "st0 = st\<lparr>logs := l\<rparr>"
    using g get_db_rows_state [of "zksynclite_swaps st" "zksynclite_transactions st" st "[]"]
    by (auto simp: get_db_transactions_def)
  have ok: "\<forall>t\<in>set txs. swap_ok t"
    using rows_txs_swap_ok by (auto simp: txs_def)
  from decode_loop_effect [OF ok, of "zksync_lite_accounts st0" ws "length txs" 0 st0]
  obtain st1 where r: "decode_loop (zksync_lite_accounts st0) ws (length txs) 0 txs st0 = (st1, Inr ())"
      "zksynclite_swaps st1 = zksynclite_swaps st0"
      "zksync_lite_accounts st1 = zksync_lite_accounts st0"
      "map row_key (zksynclite_transactions st1) = map row_key (zksynclite_transactions st0)"
      "\<forall>i. events_of i st1 = replay_events i (zksync_lite_accounts st0) txs (events_of i st0)"
    by blast
  define st2 where "st2 = (if ws then add_message (length txs) (length txs) st1 else st1)"
  have res: "decode_undecoded_transactions st True ws = (st2, Inr (length txs))"
    using g r(1) by (simp add: decode_undecoded_transactions_def ts st2_def Let_def)
  have "events_of i st2 = events_of i st1" for i
    by (simp add: st2_def events_of_def add_message_def)
  moreover have "events_of i st0 = events_of i st" for i
    by (simp add: st0 events_of_def)
  ultimately have "\<forall>i. events_of i st2 = replay_events i (zksync_lite_accounts st) txs (events_of i st)"
    using r(5) by (simp add: st0)
  moreover have "zksynclite_swaps st2 = zksynclite_swaps st"
    using r(2) by (simp add: st2_def add_message_def st0)
  moreover have "zksync_lite_accounts st2 = zksync_lite_accounts st"
    using r(3) by (simp add: st2_def add_message_def st0)
  moreover have "map row_key (zksynclite_transactions st2) = map row_key (zksynclite_transactions st)"
    using r(4) by (simp add: st2_def add_message_def st0)
  ultimately show ?thesis using res by blast
qed

text \<open>
  C4. Two forced bulk decode passes in a row, from any state: neither raises, both decode
  the same number of transactions, and under every event identifier (so under the
  identifier of every stored transaction) the events stored after the second pass are
  those stored after the first, in particular with the same type, subtype, asset, amount
  and sequence index. Each pass reads the transactions from the database again, so what
  \<^verbatim>\<open>decode_transaction\<close> assigns to the object it is given does not reach the next pass.
\<close>

theorem decode_twice_same_events:
  "\<exists>st1 st2 n.
     decode_undecoded_transactions st True ws = (st1, Inr n) \<and>
     decode_undecoded_transactions st1 True ws = (st2, Inr n) \<and>
     (\<forall>h. events_of (ZKL_IDENTIFIER h) st2 = events_of (ZKL_IDENTIFIER h) st1 \<and>
          map event_key (events_of (ZKL_IDENTIFIER h) st2)
            = map event_key (events_of (ZKL_IDENTIFIER h) st1))"
proof -
  define txs where "txs = rows_txs (zksynclite_swaps st) (map row_key (zksynclite_transactions st))"
  obtain st1 where p1: "decode_undecoded_transactions st True ws = (st1, Inr (length txs))"
      "zksynclite_swaps st1 = zksynclite_swaps st"
      "zksync_lite_accounts st1 = zksync_lite_accounts st"
      "map row_key (zksynclite_transactions st1) = map row_key (zksynclite_transactions st)"
      "\<forall>i. events_of i st1 = replay_events i (zksync_lite_accounts st) txs (events_of i st)"
    using bulk_pass_effect [of st ws] unfolding txs_def by blast
  have same: "rows_txs (zksynclite_swaps st1) (map row_key (zksynclite_transactions st1)) = txs"
    using p1(2,4) by (simp add: txs_def)
  obtain st2 where p2: "decode_undecoded_transactions st1 True ws = (st2, Inr (length txs))"
      "\<forall>i. events_of i st2 = replay_events i (zksync_lite_accounts st) txs (events_of i st1)"
    using bulk_pass_effect [of st1 ws] unfolding same p1(3) by blast
  have "events_of i st2 = events_of i st1" for i
    using p1(5) p2(2) by (simp add: replay_events_idem)
  then show ?thesis using p1(1) p2(1) by auto
qed

text \<open>
  C5 (as stated, refuted). Decoding a \<^verbatim>\<open>ChangePubKey\<close> transaction with amount 5 and fee
  1/1000 leaves the object with amount 1/1000 and no fee.
\<close>

theorem decode_mutates_changepubkey:
  "snd (decode_transaction (example_state [example_tx CHANGEPUBKEY ''aa''])
          (example_tx CHANGEPUBKEY ''aa'') [''0xA''])
     = Inr ((example_tx CHANGEPUBKEY ''aa'')\<lparr>amount := 1 / 1000, fee := None\<rparr>)
   \<and> amount (example_tx CHANGEPUBKEY ''aa'') = 5
   \<and> fee (example_tx CHANGEPUBKEY ''aa'') = Some (1 / 1000)"
  by (simp add: decode_transaction_def decode_events_def match_tx_type_def example_tx_def)

text \<open>
  C5 (amended). \<^verbatim>\<open>decode_transaction\<close> leaves every field of the transaction it is given
  unchanged, except for a \<^verbatim>\<open>ChangePubKey\<close> transaction that carries a fee: there it
  overwrites \<^verbatim>\<open>amount\<close> with the fee and sets \<^verbatim>\<open>fee\<close> to \<^verbatim>\<open>None\<close>, and changes nothing
  else.
\<close>

theorem decode_transaction_fields:
  "decode_transaction st tx tracked_addresses = (st', Inr tx') \<Longrightarrow>
     (tx_type tx \<noteq> CHANGEPUBKEY \<or> fee tx = None \<longrightarrow> tx' = tx) \<and>
     (\<forall>f. tx_type tx = CHANGEPUBKEY \<and> fee tx = Some f \<longrightarrow>
          tx' = tx\<lparr>amount := f, fee := None\<rparr>)"
  by (cases "tx_type tx")
     (auto simp: decode_transaction_def decode_events_def match_tx_type_def Let_def
           split: sum.splits option.splits prod.splits)

theorem decode_transaction_fields_witness:
  "\<exists>st'. decode_transaction (example_state [example_tx TRANSFER ''aa''])
            (example_tx TRANSFER ''aa'') [''0xA'']
          = (st', Inr (example_tx TRANSFER ''aa''))"
proof -
  obtain st' tx' where d: "decode_transaction (example_state [example_tx TRANSFER ''aa''])
            (example_tx TRANSFER ''aa'') [''0xA''] = (st', Inr tx')"
    by (simp add: decode_transaction_def decode_events_def match_tx_type_def example_tx_def
          Let_def is_tracked_def)
  have "tx_type (example_tx TRANSFER ''aa'') \<noteq> CHANGEPUBKEY"
    by (simp add: example_tx_def)
  with decode_transaction_fields [OF d] have "tx' = example_tx TRANSFER ''aa''" by blast
  with d show ?thesis by blast
qed

text \<open>
  C6. A \<^verbatim>\<open>Swap\<close> transaction with its swap data and a fee decodes to exactly three events
  with sequence indices 0, 1 and 2: the trade spend of the sell leg, the trade receive of
  the buy leg, and the fee event carrying the transaction's fee in the transaction's
  asset; \<^verbatim>\<open>decode_transaction\<close> appends exactly these to the stored events.
\<close>

theorem decode_swap_with_fee:
  assumes "tx_type tx = SWAP" and "swap_data tx = Some sd" and "fee tx = Some f"
  shows "\<exists>e0 e1 e2.
           decode_events tx tracked_addresses = Inr (tx, [e0, e1, e2]) \<and>
           history_events (fst (decode_transaction st tx tracked_addresses))
             = history_events st @ [e0, e1, e2] \<and>
           map event_key [e0, e1, e2] =
             [(ET_TRADE, ST_SPEND, from_asset sd, from_amount sd, 0),
              (ET_TRADE, ST_RECEIVE, to_asset sd, to_amount sd, 1),
              (ET_TRADE, ST_FEE, asset tx, f, 2)]"
  using assms
  by (simp add: decode_transaction_def decode_events_def match_tx_type_def Let_def
        append_fee_event_def event_key_def fold_add_history_event set_decoded_def log_msg_def)

theorem decode_swap_with_fee_witness:
  "\<exists>e0 e1 e2.
     decode_events ((example_tx SWAP ''bb'')\<lparr>swap_data := Some example_swap_data\<rparr>) [''0xA'']
       = Inr ((example_tx SWAP ''bb'')\<lparr>swap_data := Some example_swap_data\<rparr>, [e0, e1, e2]) \<and>
     map event_key [e0, e1, e2] =
       [(ET_TRADE, ST_SPEND, A_ETH, 2, 0),
        (ET_TRADE, ST_RECEIVE, A_DAI, 4000, 1),
        (ET_TRADE, ST_FEE, A_ETH, 1 / 1000, 2)]"
proof -
  let ?tx = "(example_tx SWAP ''bb'')\<lparr>swap_data := Some example_swap_data\<rparr>"
  have h: "tx_type ?tx = SWAP" "swap_data ?tx = Some example_swap_data"
      "fee ?tx = Some (1 / 1000)"
    by (simp_all add: example_tx_def)
  have v: "from_asset example_swap_data = A_ETH" "from_amount example_swap_data = 2"
      "to_asset example_swap_data = A_DAI" "to_amount example_swap_data = 4000"
      "asset ?tx = A_ETH"
    by (simp_all add: example_swap_data_def example_tx_def)
  from decode_swap_with_fee [OF h, of "[''0xA'']" "example_state []"]
  obtain e0 e1 e2 where "decode_events ?tx [''0xA''] = Inr (?tx, [e0, e1, e2])"
      "map event_key [e0, e1, e2] =
         [(ET_TRADE, ST_SPEND, from_asset example_swap_data, from_amount example_swap_data, 0),
          (ET_TRADE, ST_RECEIVE, to_asset example_swap_data, to_amount example_swap_data, 1),
          (ET_TRADE, ST_FEE, asset ?tx, 1 / 1000, 2)]"
    by (elim exE conjE) (rule that)
  then show ?thesis unfolding v by (intro exI conjI)
qed

text \<open>
  C10. A decode that does not raise (only a \<^verbatim>\<open>Swap\<close> without swap data raises) ends by
  setting \<^verbatim>\<open>is_decoded\<close> on every row with the transaction's hash, whatever it emitted: a
  \<^verbatim>\<open>Transfer\<close> with neither address tracked stores no event and is flagged all the same.
  A later non-forced pass, which reads the rows with \<^verbatim>\<open>is_decoded = 0\<close>, does not get
  the transaction.
\<close>

theorem decode_marks_decoded:
  assumes "swap_ok tx"
  shows "\<exists>st' tx'.
           decode_transaction st tx tracked_addresses = (st', Inr tx') \<and>
           (\<forall>r\<in>set (zksynclite_transactions st').
               tx_hash (row_tx r) = tx_hash tx \<longrightarrow> is_decoded r) \<and>
           (\<forall>t\<in>set (snd (get_db_transactions st' (\<lambda>r. is_decoded r = False))).
               tx_hash t \<noteq> tx_hash tx) \<and>
           (tx_type tx = TRANSFER \<and> \<not> is_tracked (from_address tx) tracked_addresses
              \<and> \<not> is_tracked (to_address tx) tracked_addresses
            \<longrightarrow> history_events st' = history_events st)"
proof -
  obtain tx' evs where d: "decode_events tx tracked_addresses = Inr (tx', evs)"
    using decode_events_swap_ok [OF assms] by blast
  then have h: "tx_hash tx' = tx_hash tx"
    using decode_events_identifier by blast
  define st0 where "st0 = (if tx_type tx = CHANGEPUBKEY \<and> fee tx = None
      then log_msg no_fee_field st else st)"
  define st' where "st' = set_decoded (tx_hash tx) (fold add_history_event evs st0)"
  have r: "decode_transaction st tx tracked_addresses = (st', Inr tx')"
    using d h by (simp add: decode_transaction_def st'_def st0_def Let_def)
  have flags: "\<forall>r\<in>set (zksynclite_transactions st').
      tx_hash (row_tx r) = tx_hash tx \<longrightarrow> is_decoded r"
    by (auto simp: st'_def set_decoded_def)
  have "\<forall>t\<in>set (snd (get_db_transactions st' (\<lambda>r. is_decoded r = False))).
      tx_hash t \<noteq> tx_hash tx"
  proof
    fix t assume "t \<in> set (snd (get_db_transactions st' (\<lambda>r. is_decoded r = False)))"
    then have "t \<in> set (rows_txs (zksynclite_swaps st')
        (map row_key (filter (\<lambda>r. is_decoded r = False) (zksynclite_transactions st'))))"
      by (simp add: get_db_transactions_def get_db_rows_txs)
    then obtain r where "r \<in> set (zksynclite_transactions st')" "\<not> is_decoded r"
        "tx_hash (row_tx r) = tx_hash t"
      using rows_txs_hash by (fastforce simp: row_key_def)
    then show "tx_hash t \<noteq> tx_hash tx" using flags by auto
  qed
  moreover have "tx_type tx = TRANSFER \<and> \<not> is_tracked (from_address tx) tracked_addresses
      \<and> \<not> is_tracked (to_address tx) tracked_addresses
      \<longrightarrow> history_events st' = history_events st"
    using d by (auto simp: st'_def st0_def set_decoded_def fold_add_history_event
        decode_events_def match_tx_type_def append_fee_event_def split: option.splits)
  ultimately show ?thesis using r flags by blast
qed

theorem decode_marks_decoded_witness:
  "\<exists>st'. decode_transaction (example_state [example_tx TRANSFER ''aa''])
            (example_tx TRANSFER ''aa'') [''0xC''] = (st', Inr (example_tx TRANSFER ''aa'')) \<and>
     history_events st' = [] \<and>
     snd (get_db_transactions st' (\<lambda>r. is_decoded r = False)) = []"
proof -
  let ?tx = "example_tx TRANSFER ''aa''"
  let ?st = "example_state [?tx]"
  have ok: "swap_ok ?tx" by (simp add: swap_ok_def example_tx_def)
  have tr: "tx_type ?tx = TRANSFER \<and> \<not> is_tracked (from_address ?tx) [''0xC'']
      \<and> \<not> is_tracked (to_address ?tx) [''0xC'']"
    by (simp add: example_tx_def is_tracked_def)
  from decode_marks_decoded [OF ok, of ?st "[''0xC'']"]
  obtain st' tx' where r: "decode_transaction ?st ?tx [''0xC''] = (st', Inr tx')"
      "\<forall>t\<in>set (snd (get_db_transactions st' (\<lambda>r. is_decoded r = False))).
          tx_hash t \<noteq> tx_hash ?tx"
      "history_events st' = history_events ?st"
    using tr by blast
  have e: "decode_transaction ?st ?tx [''0xC''] =
      (set_decoded ''aa'' ?st, Inr ?tx)"
    by (simp add: decode_transaction_def decode_events_def match_tx_type_def example_tx_def
          is_tracked_def append_fee_event_def)
  have "snd (get_db_transactions (set_decoded ''aa'' ?st) (\<lambda>r. is_decoded r = False)) = []"
    by (simp add: get_db_transactions_def set_decoded_def example_state_def example_tx_def)
  moreover have "history_events ?st = []" by (simp add: example_state_def)
  ultimately show ?thesis using r e by auto
qed

section \<open>Properties of the normalizer\<close>

lemmas example_defs = example_env_def example_entry_def changepubkey_entry_def deposit_entry_def
  example_str_def example_ts_def example_int_of_str_def digit_of_def A_ETH_def A_DAI_def deposit_tx_def

lemmas normalizer_defs = deserialize_zksync_transaction_def deserialize_try_def by_tx_type_def
  get_token_and_amount_by_id_or_log_def swap_leg_def get_token_by_id_def then_do_def getitem_def
  getindex_def get_or_none_def get_or_default_def deserialize_tx_type_def asset_normalized_value_def
  dict_get_def deserialize_int_from_str_def

lemma then_do_Inr: "then_do m f = Inr y \<longleftrightarrow> (\<exists>x. m = Inr x \<and> f x = Inr y)"
  by (cases m) (simp_all add: then_do_def)

lemma deserialize_Normalized:
  "deserialize_zksync_transaction H entry a = Inr (Normalized tx) \<longleftrightarrow>
     deserialize_try H entry a = Inr (Normalized tx)"
  by (auto simp: deserialize_zksync_transaction_def split: sum.splits)

lemma deserialize_int_from_str_Inr:
  "deserialize_int_from_str H v = Inr n \<longleftrightarrow> (\<exists>s. v = JStr s \<and> int_of_str H s = Some n)"
  by (cases v) (auto simp: deserialize_int_from_str_def split: option.splits)

lemma token_and_amount_Some:
  "get_token_and_amount_by_id_or_log H entry asset_key (Some key) = Inr (Some (a, amt)) \<Longrightarrow>
     \<exists>op s n. getitem entry ''op'' = Inr op \<and> getitem op key = Inr (JStr s) \<and>
        int_of_str H s = Some n \<and> amt = asset_normalized_value n a"
  by (auto simp: get_token_and_amount_by_id_or_log_def then_do_Inr deserialize_int_from_str_Inr
        split: option.splits)

lemma by_tx_type_changepubkey:
  "by_tx_type H entry a h CHANGEPUBKEY = Inr (Inr (h', fa, ta, ast, amt, sw)) \<Longrightarrow>
     amt = 0 \<and> (\<exists>op s n. getitem entry ''op'' = Inr op \<and> getitem op ''fee'' = Inr (JStr s) \<and>
        int_of_str H s = Some n)"
  by (auto simp: by_tx_type_def then_do_Inr split: option.splits dest!: token_and_amount_Some)

lemma deserialize_try_Normalized:
  assumes "deserialize_try H entry a = Inr (Normalized tx)"
  shows "\<exists>h0 op ty bn ts fee_str fee_raw h1 fa ta ast amt sw.
      getitem entry ''op'' = Inr op \<and>
      get_or_none op ''fee'' = Inr fee_str \<and>
      (case fee_str of None \<Rightarrow> Inr None
       | Some s \<Rightarrow> then_do (deserialize_int_from_str H s) (\<lambda>n. Inr (Some n))) = Inr fee_raw \<and>
      by_tx_type H entry a h0 ty = Inr (Inr (h1, fa, ta, ast, amt, sw)) \<and>
      tx = \<lparr>tx_hash = h1, tx_type = ty, timestamp = ts, block_number = bn,
            from_address = fa, to_address = ta, asset = ast, amount = amt,
            fee = (case fee_raw of None \<Rightarrow> None
                   | Some n \<Rightarrow> if n \<noteq> 0 then Some (asset_normalized_value n ast) else None),
            swap_data = sw\<rparr>"
  using assms
  apply (simp add: deserialize_try_def then_do_Inr split: if_splits)
  apply (elim exE conjE)
  apply (simp split: sum.splits prod.splits)
  apply blast
  done

text \<open>
  C2 (amended). A \<^verbatim>\<open>ChangePubKey\<close> envelope that normalizes has a string \<^verbatim>\<open>op.fee\<close> that
  parses to an integer \<open>n\<close>; the transaction's \<^verbatim>\<open>amount\<close> is zero, and it is the \<^verbatim>\<open>fee\<close>
  field that holds \<open>n\<close> scaled by the asset's decimals (\<^verbatim>\<open>None\<close> when \<open>n = 0\<close>).
\<close>

theorem changepubkey_amount_is_zero:
  assumes "deserialize_zksync_transaction H entry concerning_address = Inr (Normalized tx)"
    and "tx_type tx = CHANGEPUBKEY"
  shows "amount tx = 0 \<and>
     (\<exists>op s n. getitem entry ''op'' = Inr op \<and> getitem op ''fee'' = Inr (JStr s) \<and>
        int_of_str H s = Some n \<and>
        fee tx = (if n \<noteq> 0 then Some (asset_normalized_value n (asset tx)) else None))"
proof -
  from assms(1) have t: "deserialize_try H entry concerning_address = Inr (Normalized tx)"
    by (simp add: deserialize_Normalized)
  from deserialize_try_Normalized [OF t]
  obtain h0 op ty bn ts fee_str fee_raw h1 fa ta ast amt sw where
      op: "getitem entry ''op'' = Inr op"
      and fs: "get_or_none op ''fee'' = Inr fee_str"
      and fr: "(case fee_str of None \<Rightarrow> Inr None
                | Some s \<Rightarrow> then_do (deserialize_int_from_str H s) (\<lambda>n. Inr (Some n))) = Inr fee_raw"
      and by_ty: "by_tx_type H entry concerning_address h0 ty = Inr (Inr (h1, fa, ta, ast, amt, sw))"
      and tx: "tx = \<lparr>tx_hash = h1, tx_type = ty, timestamp = ts, block_number = bn,
                from_address = fa, to_address = ta, asset = ast, amount = amt,
                fee = (case fee_raw of None \<Rightarrow> None
                       | Some n \<Rightarrow> if n \<noteq> 0 then Some (asset_normalized_value n ast) else None),
                swap_data = sw\<rparr>"
    by blast
  from tx assms(2) have ty: "ty = CHANGEPUBKEY" by simp
  from by_ty ty obtain op' s n where amt: "amt = 0"
      and op': "getitem entry ''op'' = Inr op'" and fee: "getitem op' ''fee'' = Inr (JStr s)"
      and n: "int_of_str H s = Some n"
    using by_tx_type_changepubkey by blast
  from op op' have same: "op' = op" by simp
  from fee same have "fee_str = Some (JStr s)"
    using fs by (auto simp: getitem_def get_or_none_def dict_get_def split: json.splits option.splits)
  with fr n have "fee_raw = Some n"
    by (simp add: then_do_def deserialize_int_from_str_def)
  with tx amt op fee same n show ?thesis by auto
qed

text \<open>
  C2 (as stated, refuted). A \<^verbatim>\<open>ChangePubKey\<close> envelope with \<^verbatim>\<open>op.fee = "1000000000000000"\<close>
  in the 18-decimals asset: the fee scales to 1/1000, and the normalized transaction has
  amount 0 and fee 1/1000.
\<close>

theorem changepubkey_amount_not_fee:
  "deserialize_zksync_transaction example_env changepubkey_entry ''0xA'' =
     Inr (Normalized \<lparr>tx_hash = ''aa'', tx_type = CHANGEPUBKEY, timestamp = 1700000000,
        block_number = JInt 7, from_address = Some ''0xA'', to_address = None, asset = A_ETH,
        amount = 0, fee = Some (1 / 1000), swap_data = None\<rparr>)
   \<and> asset_normalized_value 1000000000000000 A_ETH = 1 / 1000"
  by (simp add: normalizer_defs example_defs)

theorem changepubkey_amount_is_zero_witness:
  "\<exists>op s n. getitem changepubkey_entry ''op'' = Inr op \<and> getitem op ''fee'' = Inr (JStr s) \<and>
     int_of_str example_env s = Some n \<and>
     Some (1 / 1000) = (if n \<noteq> 0 then Some (asset_normalized_value n A_ETH) else None)"
proof -
  let ?tx = "\<lparr>tx_hash = ''aa'', tx_type = CHANGEPUBKEY, timestamp = 1700000000,
        block_number = JInt 7, from_address = Some ''0xA'', to_address = None, asset = A_ETH,
        amount = 0, fee = Some (1 / 1000), swap_data = None\<rparr>"
  have d: "deserialize_zksync_transaction example_env changepubkey_entry ''0xA'' =
      Inr (Normalized ?tx)"
    by (simp add: normalizer_defs example_defs)
  have ty: "tx_type ?tx = CHANGEPUBKEY" by simp
  from changepubkey_amount_is_zero [OF d ty] obtain op s n where
      a: "getitem changepubkey_entry ''op'' = Inr op" "getitem op ''fee'' = Inr (JStr s)"
        "int_of_str example_env s = Some n"
      and f: "fee ?tx = (if n \<noteq> 0 then Some (asset_normalized_value n (asset ?tx)) else None)"
    by blast
  from f have "Some (1 / 1000) = (if n \<noteq> 0 then Some (asset_normalized_value n A_ETH) else None)"
    by (simp cong: if_cong)
  with a show ?thesis by blast
qed

section \<open>Properties of \<^verbatim>\<open>_add_zksynctxs_db\<close>\<close>

lemma length_accepted: "length (accepted hs txs) \<le> length txs"
  by (induction txs arbitrary: hs) (auto intro: le_SucI)

lemma hashes_accepted: "tx_hash ` set txs \<subseteq> hs \<union> tx_hash ` set (accepted hs txs)"
proof (induction txs arbitrary: hs)
  case Nil
  then show ?case by simp
next
  case (Cons t ts)
  show ?case
  proof (cases "tx_hash t \<in> hs")
    case True
    then show ?thesis using Cons.IH [of hs] by auto
  next
    case False
    then show ?thesis using Cons.IH [of "insert (tx_hash t) hs"] by auto
  qed
qed

lemma insert_transaction_dup:
  "tx_hash t \<in> stored_hashes st \<Longrightarrow> insert_transaction t st = Inl IntegrityError"
  by (simp add: insert_transaction_def)

lemma insert_transaction_new:
  assumes "tx_hash t \<notin> stored_hashes st"
  shows "\<exists>st1 row_id. insert_transaction t st = Inr (st1, row_id) \<and>
           zksynclite_transactions st1 = zksynclite_transactions st @
             [\<lparr>row_identifier = row_id, row_tx = t\<lparr>swap_data := None\<rparr>, is_decoded = False\<rparr>] \<and>
           stored_hashes st1 = insert (tx_hash t) (stored_hashes st) \<and>
           logs st1 = logs st \<and> history_events st1 = history_events st \<and>
           zksynclite_swaps st1 = zksynclite_swaps st"
  using assms by (simp add: insert_transaction_def Let_def stored_hashes_def)

lemma add_zksynctxs_db_effect:
  assumes "\<forall>t\<in>set txs. swap_ok t"
  shows "\<exists>st' k. add_zksynctxs_db txs st = (st', Inr ()) \<and>
           map row_tx (zksynclite_transactions st') =
             map row_tx (zksynclite_transactions st) @
             map (\<lambda>t. t\<lparr>swap_data := None\<rparr>) (accepted (stored_hashes st) txs) \<and>
           prefix (zksynclite_transactions st) (zksynclite_transactions st') \<and>
           prefix (zksynclite_swaps st) (zksynclite_swaps st') \<and>
           history_events st' = history_events st \<and>
           logs st' = logs st @ replicate k did_not_add \<and>
           k + length (accepted (stored_hashes st) txs) = length txs"
  using assms
proof (induction txs arbitrary: st)
  case Nil
  then show ?case by simp
next
  case (Cons t ts)
  then have ok: "swap_ok t" and oks: "\<forall>t\<in>set ts. swap_ok t" by simp_all
  show ?case
  proof (cases "tx_hash t \<in> stored_hashes st")
    case True
    let ?st1 = "log_msg did_not_add st"
    have h: "stored_hashes ?st1 = stored_hashes st"
      by (simp add: stored_hashes_def log_msg_def)
    from Cons.IH [OF oks, of ?st1] obtain st' k where
        r: "add_zksynctxs_db ts ?st1 = (st', Inr ())"
        "map row_tx (zksynclite_transactions st') =
           map row_tx (zksynclite_transactions ?st1) @
           map (\<lambda>t. t\<lparr>swap_data := None\<rparr>) (accepted (stored_hashes ?st1) ts)"
        "prefix (zksynclite_transactions ?st1) (zksynclite_transactions st')"
        "prefix (zksynclite_swaps ?st1) (zksynclite_swaps st')"
        "history_events st' = history_events ?st1"
        "logs st' = logs ?st1 @ replicate k did_not_add"
        "k + length (accepted (stored_hashes ?st1) ts) = length ts"
      by blast
    have "logs st' = logs st @ replicate (Suc k) did_not_add"
      using r(6) by (simp add: log_msg_def)
    moreover have "add_zksynctxs_db (t # ts) st = (st', Inr ())"
      using True r(1) by (simp add: insert_transaction_dup)
    ultimately show ?thesis
      using True r(2-5,7) unfolding h
      by (intro exI [of _ st'] exI [of _ "Suc k"]) (simp add: log_msg_def)
  next
    case False
    from insert_transaction_new [OF False] obtain st1 row_id where
        i: "insert_transaction t st = Inr (st1, row_id)"
        "zksynclite_transactions st1 = zksynclite_transactions st @
           [\<lparr>row_identifier = row_id, row_tx = t\<lparr>swap_data := None\<rparr>, is_decoded = False\<rparr>]"
        "stored_hashes st1 = insert (tx_hash t) (stored_hashes st)"
        "logs st1 = logs st" "history_events st1 = history_events st"
        "zksynclite_swaps st1 = zksynclite_swaps st"
      by blast
    define st2 where "st2 = (case swap_data t of
        Some sd \<Rightarrow> if tx_type t = SWAP then insert_swap row_id sd st1 else st1 | None \<Rightarrow> st1)"
    have step: "add_zksynctxs_db (t # ts) st = add_zksynctxs_db ts st2"
      using i(1) ok by (auto simp: st2_def swap_ok_def split: option.splits)
    have s2: "zksynclite_transactions st2 = zksynclite_transactions st1"
        "stored_hashes st2 = stored_hashes st1" "logs st2 = logs st1"
        "history_events st2 = history_events st1"
        "prefix (zksynclite_swaps st1) (zksynclite_swaps st2)"
      by (auto simp: st2_def insert_swap_def stored_hashes_def split: option.splits)
    from Cons.IH [OF oks, of st2] obtain st' k where
        r: "add_zksynctxs_db ts st2 = (st', Inr ())"
        "map row_tx (zksynclite_transactions st') =
           map row_tx (zksynclite_transactions st2) @
           map (\<lambda>t. t\<lparr>swap_data := None\<rparr>) (accepted (stored_hashes st2) ts)"
        "prefix (zksynclite_transactions st2) (zksynclite_transactions st')"
        "prefix (zksynclite_swaps st2) (zksynclite_swaps st')"
        "history_events st' = history_events st2"
        "logs st' = logs st2 @ replicate k did_not_add"
        "k + length (accepted (stored_hashes st2) ts) = length ts"
      by blast
    have p1: "prefix (zksynclite_transactions st) (zksynclite_transactions st')"
      using r(3) s2(1) i(2) by (metis prefix_order.dual_order.trans prefixI)
    have p2: "prefix (zksynclite_swaps st) (zksynclite_swaps st')"
      using r(4) s2(5) i(6) by (metis prefix_order.trans)
    show ?thesis
      using False step r(1,2,5,6,7) p1 p2 s2 i
      by (intro exI [of _ st'] exI [of _ k]) simp
  qed
qed

text \<open>
  C9. A batch whose \<^verbatim>\<open>Swap\<close> transactions carry their swap data is worked through to its
  end, whatever it duplicates: the call returns normally, the table is the old table
  followed by the accepted transactions of the batch in order (each one whose hash was
  neither stored nor carried by an earlier transaction of the batch), one line is logged
  for each rejected one, and afterwards the table holds the hash of every transaction of
  the batch.
\<close>

theorem duplicate_never_aborts_batch:
  assumes "\<forall>t\<in>set txs. swap_ok t"
  shows "\<exists>st' k. add_zksynctxs_db txs st = (st', Inr ()) \<and>
           map row_tx (zksynclite_transactions st') =
             map row_tx (zksynclite_transactions st) @
             map (\<lambda>t. t\<lparr>swap_data := None\<rparr>) (accepted (stored_hashes st) txs) \<and>
           logs st' = logs st @ replicate k did_not_add \<and>
           k + length (accepted (stored_hashes st) txs) = length txs \<and>
           (\<forall>t\<in>set txs. tx_hash t \<in> stored_hashes st')"
proof -
  from add_zksynctxs_db_effect [OF assms, of st] obtain st' k where
      r: "add_zksynctxs_db txs st = (st', Inr ())"
      "map row_tx (zksynclite_transactions st') =
         map row_tx (zksynclite_transactions st) @
         map (\<lambda>t. t\<lparr>swap_data := None\<rparr>) (accepted (stored_hashes st) txs)"
      "logs st' = logs st @ replicate k did_not_add"
      "k + length (accepted (stored_hashes st) txs) = length txs"
    by blast
  have "stored_hashes st' = tx_hash ` set (map row_tx (zksynclite_transactions st'))"
    by (simp add: stored_hashes_def image_image)
  also have "\<dots> = stored_hashes st \<union> tx_hash ` set (accepted (stored_hashes st) txs)"
    unfolding r(2) by (simp add: stored_hashes_def image_image image_Un)
  finally have "\<forall>t\<in>set txs. tx_hash t \<in> stored_hashes st'"
    using hashes_accepted [of txs "stored_hashes st"] by auto
  with r show ?thesis by blast
qed

theorem duplicate_never_aborts_batch_witness:
  "\<exists>st'. add_zksynctxs_db [deposit_tx ''bb'', deposit_tx ''cc''] (example_state [deposit_tx ''bb''])
            = (st', Inr ()) \<and>
          map row_tx (zksynclite_transactions st') = [deposit_tx ''bb'', deposit_tx ''cc''] \<and>
          logs st' = [did_not_add]"
proof -
  let ?txs = "[deposit_tx ''bb'', deposit_tx ''cc'']"
  let ?st = "example_state [deposit_tx ''bb'']"
  have ok: "\<forall>t\<in>set ?txs. swap_ok t" by (simp add: swap_ok_def deposit_tx_def)
  have h: "stored_hashes ?st = {''bb''}"
    by (simp add: stored_hashes_def example_state_def deposit_tx_def)
  have acc: "accepted {''bb''} ?txs = [deposit_tx ''cc'']"
    by (simp add: deposit_tx_def)
  from duplicate_never_aborts_batch [OF ok, of ?st] obtain st' k where
      r: "add_zksynctxs_db ?txs ?st = (st', Inr ())"
      "map row_tx (zksynclite_transactions st') =
         map row_tx (zksynclite_transactions ?st) @
         map (\<lambda>t. t\<lparr>swap_data := None\<rparr>) (accepted (stored_hashes ?st) ?txs)"
      "logs st' = logs ?st @ replicate k did_not_add"
      "k + length (accepted (stored_hashes ?st) ?txs) = length ?txs"
    by blast
  from r(4) have k: "k = 1" unfolding h acc by simp
  have rows: "map row_tx (zksynclite_transactions st') = ?txs"
    using r(2) unfolding h acc by (simp add: example_state_def deposit_tx_def)
  have "logs st' = [did_not_add]"
    using r(3) k by (simp add: example_state_def)
  with r(1) rows show ?thesis by (intro exI [of _ st'] conjI)
qed

section \<open>Properties of the paginated fetch\<close>

lemmas session_defs = query_api_def query_api_loop.simps ok_page_def backoff_limit_def
  TOO_MANY_REQUESTS_def OK_def read_page_def next_from_hash_def entries_of_def last_item_def
  not_finalized_def page_entry_def

text \<open>
  C7 (as stated, refuted). Page size 2; the first page is the rows \<open>aa\<close> (finalized) and
  \<open>bb\<close> (committed), the second page starts with the row \<open>bb\<close> again. The fetch yields the
  batches \<open>[aa]\<close> and \<open>[]\<close>: the boundary row \<open>bb\<close> is in the merged sequence zero times.
\<close>

theorem boundary_row_discarded:
  "query_zksync_api_transactions example_env overlap_session ''0xB'' (JStr ''latest'') older 0
     = Some ([ [deposit_tx ''aa''], [] ], 2, Inr ())
   \<and> count_list (map tx_hash (concat [ [deposit_tx ''aa''], [] ])) ''bb'' = 0"
proof -
  have "query_zksync_api_transactions example_env overlap_session ''0xB'' (JStr ''latest'') older 0
     = Some ([ [deposit_tx ''aa''], [] ], 2, Inr ())"
    unfolding query_zksync_api_transactions_def
    apply (subst query_zksync_api_transactions_loop.simps)
    apply (simp add: session_defs overlap_session_def normalizer_defs example_defs)
    apply (subst query_zksync_api_transactions_loop.simps)
    apply (simp add: session_defs overlap_session_def normalizer_defs example_defs)
    done
  moreover have "count_list (map tx_hash (concat [ [deposit_tx ''aa''], [] ])) ''bb'' = 0"
    by (simp add: deposit_tx_def)
  ultimately show ?thesis by (rule conjI)
qed

lemma page_entry_later_index:
  "page_entry H a (Suc i) e acc lh = page_entry H a (Suc j) e acc lh"
  by (simp add: page_entry_def)

lemma page_entries_later_index:
  "page_entries H a (Suc i) es acc lh = page_entries H a (Suc j) es acc lh"
proof (induction es arbitrary: i j acc lh)
  case Nil
  show ?case by simp
next
  case (Cons e es)
  show ?case
    using Cons.IH [of "Suc i" _ _ "Suc j"] page_entry_later_index [of H a i e acc lh j]
    by (simp split: sum.splits)
qed

lemma page_entries_append:
  "page_entries H a idx (xs @ ys) acc lh =
     (case page_entries H a idx xs acc lh of
        Inl e \<Rightarrow> Inl e
      | Inr (txs, l) \<Rightarrow> page_entries H a (idx + length xs) ys txs l)"
proof (induction xs arbitrary: idx acc lh)
  case Nil
  show ?case by simp
next
  case (Cons x xs)
  show ?case
    using Cons.IH [of "Suc idx"]
    by (simp split: sum.splits prod.splits)
qed

lemma normalized_has_hash:
  "deserialize_zksync_transaction H e a = Inr (Normalized tx) \<Longrightarrow>
     \<exists>h. getitem e ''txHash'' = Inr h"
  by (auto simp: deserialize_Normalized deserialize_try_def then_do_Inr split: if_splits)

text \<open>Three pages that overlap at both boundaries, all rows finalized: each boundary row
  is yielded once.\<close>

lemma overlapping_pages_merged:
  "query_zksync_api_transactions example_env three_page_session ''0xB'' (JStr ''latest'') older 0
     = Some ([ [deposit_tx ''aa'', deposit_tx ''cc''], [deposit_tx ''dd''], [] ], 3, Inr ())"
  unfolding query_zksync_api_transactions_def
  apply (subst query_zksync_api_transactions_loop.simps)
  apply (simp add: session_defs three_page_session_def normalizer_defs example_defs)
  apply (subst query_zksync_api_transactions_loop.simps)
  apply (simp add: session_defs three_page_session_def normalizer_defs example_defs)
  apply (subst query_zksync_api_transactions_loop.simps)
  apply (simp add: session_defs three_page_session_def normalizer_defs example_defs)
  done

text \<open>What a served page says about the round that reads it.\<close>

lemma serves_Cons:
  assumes "serves H sess a fh dir calls (result # later)"
  shows "\<exists>calls1 sleeps response.
           query_api sess calls (transactions_request H a fh dir) = Some ((calls1, sleeps), Inr response) \<and>
           get_or_none response ''list'' = Inr (Some result) \<and>
           (later \<noteq> [] \<longrightarrow> (\<exists>fh1. next_from_hash H result = Inr (Some fh1) \<and>
                serves H sess a fh1 dir calls1 later))"
  using assms
  by (auto split: option.splits sum.splits prod.splits list.splits)

text \<open>One round of the loop whose request is answered with a page.\<close>

lemma loop_round:
  assumes "query_api sess calls (transactions_request H a fh dir) = Some ((calls1, sleeps), Inr response)"
    and "get_or_none response ''list'' = Inr (Some result)"
  shows "query_zksync_api_transactions_loop H sess a dir calls fh lh yielded =
     (case then_do (entries_of result) (\<lambda>entries. page_entries H a 0 entries [] lh) of
        Inl e \<Rightarrow> Some (yielded, calls1, Inl e)
      | Inr (transactions, lh1) \<Rightarrow>
         (case next_from_hash H result of
            Inl e \<Rightarrow> Some (yielded @ [transactions], calls1, Inl e)
          | Inr None \<Rightarrow> Some (yielded @ [transactions], calls1, Inr ())
          | Inr (Some fh1) \<Rightarrow>
              query_zksync_api_transactions_loop H sess a dir calls1 fh1 lh1
                (yielded @ [transactions])))"
  apply (subst query_zksync_api_transactions_loop.simps)
  apply (simp add: assms read_page_def then_do_def split: sum.splits prod.splits)
  done

text \<open>A batch that has been yielded stays yielded.\<close>

lemma loop_prefix:
  assumes "query_zksync_api_transactions_loop H sess a dir calls fh lh yielded = Some r"
  shows "prefix yielded (fst r)"
  using assms
proof (induction H sess a dir calls fh lh yielded r
    rule: query_zksync_api_transactions_loop.raw_induct [rotated 1, consumes 1, case_names round])
  case (round loop H sess a dir calls fh lh yielded r)
  from round(2) show ?case
    by (auto split: option.splits sum.splits prod.splits dest!: round(1) dest: append_prefixD)
qed

text \<open>The boundary row on the earlier page, on the later page, and as the next
  \<^verbatim>\<open>from_hash\<close>.\<close>

lemma earlier_page:
  assumes "before \<noteq> []"
    and "deserialize_zksync_transaction H row a = Inr (Normalized tx)"
    and "getitem row ''txHash'' = Inr h"
  shows "page_entries H a 0 (before @ [row]) [] lh =
     (case page_entries H a 0 before [] lh of
        Inl e \<Rightarrow> Inl e
      | Inr (kb, l) \<Rightarrow> Inr (kb @ [tx], h))"
  using assms
  by (simp add: page_entries_append page_entry_def then_do_def split: sum.splits prod.splits)

lemma later_page:
  assumes "getitem row' ''txHash'' = Inr h"
  shows "page_entries H a 0 (row' # rest) [] h = page_entries H a 1 rest [] h"
  using assms by (simp add: page_entry_def then_do_def)

lemma next_from_hash_last:
  assumes "next_from_hash H (JList (before @ [row])) = Inr (Some fh1)"
  shows "getitem row ''txHash'' = Inr fh1"
  using assms
  by (simp add: next_from_hash_def entries_of_def last_item_def then_do_def
        split: if_splits sum.splits)

text \<open>The two boundary rows, from any state of the loop: \<open>yielded\<close> are the batches of
  the rounds before.\<close>

lemma loop_boundary:
  assumes "serves H sess a fh dir calls pages"
    and "query_zksync_api_transactions_loop H sess a dir calls fh lh yielded =
           Some (batches, calls', ending)"
    and "length yielded + i < length batches"
    and "Suc i < length pages"
    and "pages ! i = JList (before @ [row])"
    and "before \<noteq> []"
    and "pages ! Suc i = JList (row' # rest)"
    and "getitem row' ''txHash'' = getitem row ''txHash''"
    and "deserialize_zksync_transaction H row a = Inr (Normalized tx)"
  shows "\<exists>last0 kept_before l h.
           page_entries H a 0 before [] last0 = Inr (kept_before, l) \<and>
           batches ! (length yielded + i) = kept_before @ [tx] \<and>
           getitem row ''txHash'' = Inr h \<and>
           (case page_entries H a 1 rest [] h of
              Inl e \<Rightarrow> length batches = Suc (length yielded + i) \<and> ending = Inl e
            | Inr (batch2, l2) \<Rightarrow>
                Suc (length yielded + i) < length batches \<and>
                batches ! Suc (length yielded + i) = batch2)"
  using assms(1-5,7)
proof (induction i arbitrary: calls fh lh yielded pages)
  case 0
  from 0(4,5,6) obtain later where
      pages: "pages = JList (before @ [row]) # JList (row' # rest) # later"
    by (cases pages; cases "tl pages") auto
  from serves_Cons [OF 0(1) [unfolded pages]] obtain calls1 sleeps1 response1 fh1 where
      q1: "query_api sess calls (transactions_request H a fh dir) =
             Some ((calls1, sleeps1), Inr response1)"
      and l1: "get_or_none response1 ''list'' = Inr (Some (JList (before @ [row])))"
      and n1: "next_from_hash H (JList (before @ [row])) = Inr (Some fh1)"
      and s1: "serves H sess a fh1 dir calls1 (JList (row' # rest) # later)"
    by auto
  from serves_Cons [OF s1] obtain calls2 sleeps2 response2 where
      q2: "query_api sess calls1 (transactions_request H a fh1 dir) =
             Some ((calls2, sleeps2), Inr response2)"
      and l2: "get_or_none response2 ''list'' = Inr (Some (JList (row' # rest)))"
    by auto
  have h: "getitem row ''txHash'' = Inr fh1"
    using n1 by (rule next_from_hash_last)
  have h': "getitem row' ''txHash'' = Inr fh1"
    using h assms(8) by simp
  note first = earlier_page [OF assms(6) assms(9) h, of lh]
  obtain kb l where kb: "page_entries H a 0 before [] lh = Inr (kb, l)"
  proof (cases "page_entries H a 0 before [] lh")
    case (Inl e)
    with 0(2) first have "batches = yielded"
      by (simp add: loop_round [OF q1 l1] entries_of_def then_do_def)
    with 0(3) show ?thesis by simp
  next
    case (Inr r)
    then show ?thesis using that by (cases r) simp
  qed
  have round1: "query_zksync_api_transactions_loop H sess a dir calls1 fh1 fh1
      (yielded @ [kb @ [tx]]) = Some (batches, calls', ending)"
    using 0(2) first kb n1
    by (simp add: loop_round [OF q1 l1] entries_of_def then_do_def)
  note second = later_page [OF h', of H a rest]
  show ?case
  proof (cases "page_entries H a 1 rest [] fh1")
    case (Inl e)
    with round1 second have "batches = yielded @ [kb @ [tx]]" "ending = Inl e"
      by (simp_all add: loop_round [OF q2 l2] entries_of_def then_do_def)
    with kb h Inl show ?thesis
      by (intro exI [of _ lh] exI [of _ kb] exI [of _ l] exI [of _ fh1]) simp
  next
    case (Inr r)
    obtain batch2 l2 where r: "r = (batch2, l2)" by (cases r)
    have "prefix (yielded @ [kb @ [tx], batch2]) batches"
    proof (cases "next_from_hash H (JList (row' # rest))")
      case (Inl e)
      with round1 second Inr r show ?thesis
        by (simp add: loop_round [OF q2 l2] entries_of_def then_do_def)
    next
      case nx: (Inr nxt)
      show ?thesis
      proof (cases nxt)
        case None
        with round1 second Inr r nx show ?thesis
          by (simp add: loop_round [OF q2 l2] entries_of_def then_do_def)
      next
        case (Some fh2)
        with round1 second Inr r nx have
          "query_zksync_api_transactions_loop H sess a dir calls2 fh2 l2
             (yielded @ [kb @ [tx], batch2]) = Some (batches, calls', ending)"
          by (simp add: loop_round [OF q2 l2] entries_of_def then_do_def)
        from loop_prefix [OF this] show ?thesis by simp
      qed
    qed
    then obtain more where "batches = yielded @ [kb @ [tx], batch2] @ more"
      by (auto simp: prefix_def)
    then have "batches ! length yielded = kb @ [tx]"
        "batches ! Suc (length yielded) = batch2" "Suc (length yielded) < length batches"
      by (simp_all add: nth_append)
    with kb h Inr r show ?thesis
      by (intro exI [of _ lh] exI [of _ kb] exI [of _ l] exI [of _ fh1]) simp
  qed
next
  case (Suc i)
  from Suc(5) obtain p0 ps where pages: "pages = p0 # ps" and ps: "Suc i < length ps"
    by (cases pages) auto
  then have ne: "ps \<noteq> []" by auto
  from serves_Cons [OF Suc(2) [unfolded pages]] ne obtain calls1 sleeps1 response1 fh1 where
      q1: "query_api sess calls (transactions_request H a fh dir) =
             Some ((calls1, sleeps1), Inr response1)"
      and l1: "get_or_none response1 ''list'' = Inr (Some p0)"
      and n1: "next_from_hash H p0 = Inr (Some fh1)"
      and s1: "serves H sess a fh1 dir calls1 ps"
    by auto
  obtain t lh1 where
      t: "then_do (entries_of p0) (\<lambda>entries. page_entries H a 0 entries [] lh) = Inr (t, lh1)"
  proof (cases "then_do (entries_of p0) (\<lambda>entries. page_entries H a 0 entries [] lh)")
    case (Inl e)
    with Suc(3) have "batches = yielded"
      by (simp add: loop_round [OF q1 l1])
    with Suc(4) show ?thesis by simp
  next
    case (Inr r)
    then show ?thesis using that by (cases r) simp
  qed
  have run: "query_zksync_api_transactions_loop H sess a dir calls1 fh1 lh1 (yielded @ [t]) =
      Some (batches, calls', ending)"
    using Suc(3) t n1 by (simp add: loop_round [OF q1 l1])
  have len: "length (yielded @ [t]) + i < length batches" using Suc(4) by simp
  have p1: "ps ! i = JList (before @ [row])" using Suc(6) pages by simp
  have p2: "ps ! Suc i = JList (row' # rest)" using Suc(7) pages by simp
  have eq: "length (yielded @ [t]) + i = length yielded + Suc i" by simp
  from Suc.IH [OF s1 run len ps p1 p2] show ?case unfolding eq .
qed


text \<open>
  C7 (amended). A fetch that comes to an end and is served \<open>pages\<close> one after the other;
  two consecutive pages of them that overlap at the boundary (the first row of the later
  page carries the hash of the last row of the earlier page), where the boundary row
  normalizes and is not the only row of its page (a page that is followed by another has
  at least \<^verbatim>\<open>ZKSYNCLITE_MAX_LIMIT\<close> rows), and the batch of the earlier page is yielded. Then
  that batch is what the rows before the boundary row give, followed by the boundary
  row's transaction, and the batch of the later page is what its rows after the first
  give (if one of them raises, the fetch ends there with that exception): in the merged
  sequence of the fetch the two boundary rows stand for exactly one transaction.
\<close>

theorem boundary_row_once:
  assumes served: "serves H sess address from_hash dir calls pages"
    and run: "query_zksync_api_transactions H sess address from_hash dir calls =
                Some (batches, calls', ending)"
    and yielded: "i < length batches"
    and consecutive: "Suc i < length pages"
    and earlier: "pages ! i = JList (before @ [row])"
    and not_first: "before \<noteq> []"
    and later: "pages ! Suc i = JList (row' # rest)"
    and same: "getitem row' ''txHash'' = getitem row ''txHash''"
    and norm: "deserialize_zksync_transaction H row address = Inr (Normalized tx)"
  shows "\<exists>last0 kept_before l h.
           page_entries H address 0 before [] last0 = Inr (kept_before, l) \<and>
           batches ! i = kept_before @ [tx] \<and>
           getitem row ''txHash'' = Inr h \<and>
           (case page_entries H address 1 rest [] h of
              Inl e \<Rightarrow>
                length batches = Suc i \<and> ending = Inl e \<and>
                concat batches = concat (take i batches) @ kept_before @ [tx]
            | Inr (batch2, l2) \<Rightarrow>
                Suc i < length batches \<and> batches ! Suc i = batch2 \<and>
                concat (take (Suc (Suc i)) batches) =
                  concat (take i batches) @ kept_before @ [tx] @ batch2)"
proof -
  from run have run': "query_zksync_api_transactions_loop H sess address dir calls from_hash
      (JStr []) [] = Some (batches, calls', ending)"
    by (simp add: query_zksync_api_transactions_def)
  from yielded have len: "length ([] :: ZKSyncLiteTransaction list list) + i < length batches"
    by simp
  have eq: "length ([] :: ZKSyncLiteTransaction list list) + i = i" by simp
  from loop_boundary [OF served run' len consecutive earlier not_first later same norm,
      unfolded eq]
  obtain last0 kb l h where
      b: "page_entries H address 0 before [] last0 = Inr (kb, l)"
      and e: "batches ! i = kb @ [tx]"
      and h: "getitem row ''txHash'' = Inr h"
      and c: "case page_entries H address 1 rest [] h of
                Inl e \<Rightarrow> length batches = Suc i \<and> ending = Inl e
              | Inr (batch2, l2) \<Rightarrow> Suc i < length batches \<and> batches ! Suc i = batch2"
    by (elim exE conjE) (rule that)
  have t1: "take (Suc i) batches = take i batches @ [kb @ [tx]]"
    using yielded e by (simp add: take_Suc_conv_app_nth)
  have "case page_entries H address 1 rest [] h of
          Inl e \<Rightarrow>
            length batches = Suc i \<and> ending = Inl e \<and>
            concat batches = concat (take i batches) @ kb @ [tx]
        | Inr (batch2, l2) \<Rightarrow>
            Suc i < length batches \<and> batches ! Suc i = batch2 \<and>
            concat (take (Suc (Suc i)) batches) =
              concat (take i batches) @ kb @ [tx] @ batch2"
  proof (cases "page_entries H address 1 rest [] h")
    case (Inl e)
    with c have l: "length batches = Suc i" and en: "ending = Inl e" by simp_all
    from l have "take (Suc i) batches = batches" by simp
    with t1 have "batches = take i batches @ [kb @ [tx]]" by simp
    then have "concat batches = concat (take i batches @ [kb @ [tx]])" by simp
    then have "concat batches = concat (take i batches) @ kb @ [tx]" by simp
    with Inl l en show ?thesis by simp
  next
    case (Inr r)
    obtain batch2 l2 where r: "r = (batch2, l2)" by (cases r)
    with c Inr have l: "Suc i < length batches" and b2: "batches ! Suc i = batch2" by simp_all
    have "take (Suc (Suc i)) batches = take i batches @ [kb @ [tx]] @ [batch2]"
      using l b2 t1 by (simp add: take_Suc_conv_app_nth)
    then have "concat (take (Suc (Suc i)) batches) = concat (take i batches) @ kb @ [tx] @ batch2"
      by simp
    with Inr r l b2 show ?thesis by simp
  qed
  with b e h show ?thesis by (intro exI conjI)
qed

theorem boundary_row_once_witness:
  "serves example_env three_page_session ''0xB'' (JStr ''latest'') older 0
     [JList [deposit_entry ''aa'' ''finalized'', deposit_entry ''cc'' ''finalized''],
      JList [deposit_entry ''cc'' ''finalized'', deposit_entry ''dd'' ''finalized''],
      JList [deposit_entry ''dd'' ''finalized'']]
   \<and> query_zksync_api_transactions example_env three_page_session ''0xB'' (JStr ''latest'') older 0
       = Some ([ [deposit_tx ''aa'', deposit_tx ''cc''], [deposit_tx ''dd''], [] ], 3, Inr ())
   \<and> (\<exists>last0 l. page_entries example_env ''0xB'' 0 [deposit_entry ''aa'' ''finalized''] [] last0
         = Inr ([deposit_tx ''aa''], l))
   \<and> page_entries example_env ''0xB'' 1 [deposit_entry ''dd'' ''finalized''] [] (JStr ''cc'')
       = Inr ([deposit_tx ''dd''], JStr ''dd'')"
proof -
  let ?aa = "deposit_entry ''aa'' ''finalized''"
  let ?cc = "deposit_entry ''cc'' ''finalized''"
  let ?dd = "deposit_entry ''dd'' ''finalized''"
  let ?pages = "[JList [?aa, ?cc], JList [?cc, ?dd], JList [?dd]]"
  let ?batches = "[ [deposit_tx ''aa'', deposit_tx ''cc''], [deposit_tx ''dd''], [] ]"
  have served: "serves example_env three_page_session ''0xB'' (JStr ''latest'') older 0 ?pages"
    by (simp add: session_defs three_page_session_def normalizer_defs example_defs)
  have run: "query_zksync_api_transactions example_env three_page_session ''0xB''
      (JStr ''latest'') older 0 = Some (?batches, 3, Inr ())"
    by (rule overlapping_pages_merged)
  have yielded: "0 < length ?batches" by simp
  have consecutive: "Suc 0 < length ?pages" by simp
  have earlier: "?pages ! 0 = JList ([?aa] @ [?cc])" by simp
  have not_first: "[?aa] \<noteq> []" by simp
  have later: "?pages ! Suc 0 = JList (?cc # [?dd])" by simp
  have same: "getitem ?cc ''txHash'' = getitem ?cc ''txHash''" by simp
  have norm: "deserialize_zksync_transaction example_env ?cc ''0xB'' =
      Inr (Normalized (deposit_tx ''cc''))"
    by (simp add: normalizer_defs example_defs)
  have second: "page_entries example_env ''0xB'' 1 [?dd] [] (JStr ''cc'')
      = Inr ([deposit_tx ''dd''], JStr ''dd'')"
    by (simp add: page_entry_def normalizer_defs example_defs)
  from boundary_row_once [OF served run yielded consecutive earlier not_first later same norm]
  obtain last0 kb l where
      b: "page_entries example_env ''0xB'' 0 [?aa] [] last0 = Inr (kb, l)"
      and e: "?batches ! 0 = kb @ [deposit_tx ''cc'']"
    by (elim exE conjE)
  from e have "kb = [deposit_tx ''aa'']" by simp
  with b have "\<exists>last0 l. page_entries example_env ''0xB'' 0 [?aa] [] last0
      = Inr ([deposit_tx ''aa''], l)"
    by blast
  with served run second show ?thesis by (intro conjI)
qed

section \<open>Properties of \<^verbatim>\<open>fetch_transactions\<close>\<close>

lemma fetchone_max_exhausted:
  "fst (fetchone (snd (fetchone (select_tx_hash_max_timestamp st)))) = None"
  by (simp add: select_tx_hash_max_timestamp_def fetchone_def Let_def split: list.splits)

lemma forward_walk_from_latest:
  assumes "map_of (used_query_ranges st) (''zksynctxs_'' @ address) = Some (range_start, range_end)"
  shows "\<exists>walks. planned_walks st address start_ts end_ts = Inr walks \<and>
           last walks = (end_ts, end_ts, ''latest'', newer)"
  using assms
  by (simp add: planned_walks_def Let_def fetchone_def select_tx_hash_max_timestamp_def
        select_tx_hash_min_timestamp_def split: list.splits option.splits prod.splits)

text \<open>
  C3. Two stored transactions, \<open>aa\<close> at 1600000000 and \<open>bb\<close> at 1700000000, and
  \<^verbatim>\<open>end_ts\<close> = 1800000000. With a persisted range that reaches zero (case 3) the only walk
  is the forward one, and with a persisted range from 1650000000 (case 2) it is the second
  walk: both times it starts from \<^verbatim>\<open>latest\<close> and covers 1800000000 to 1800000000, not from
  \<^verbatim>\<open>0xbb\<close> and 1700000000. The backward walk of case 2 does start from the oldest stored
  transaction.
\<close>

theorem forward_walk_ignores_newest_stored:
  "planned_walks
     ((example_state [(deposit_tx ''aa'')\<lparr>timestamp := 1600000000\<rparr>, deposit_tx ''bb''])
        \<lparr>used_query_ranges := [(''zksynctxs_0xB'', (0, 1700000000))]\<rparr>)
     ''0xB'' 0 1800000000
     = Inr [(1800000000, 1800000000, ''latest'', newer)]
   \<and> planned_walks
     ((example_state [(deposit_tx ''aa'')\<lparr>timestamp := 1600000000\<rparr>, deposit_tx ''bb''])
        \<lparr>used_query_ranges := [(''zksynctxs_0xB'', (1650000000, 1700000000))]\<rparr>)
     ''0xB'' 0 1800000000
     = Inr [(0, 1600000000, ''0xaa'', older), (1800000000, 1800000000, ''latest'', newer)]"
  by (simp add: planned_walks_def Let_def fetchone_def select_tx_hash_max_timestamp_def
        select_tx_hash_min_timestamp_def example_state_def deposit_tx_def)

lemma add_zksynctxs_db_prefix:
  "prefix (zksynclite_transactions st) (zksynclite_transactions (fst (add_zksynctxs_db txs st)))"
proof (induction txs arbitrary: st)
  case Nil
  show ?case by simp
next
  case (Cons t ts)
  show ?case
  proof (cases "tx_hash t \<in> stored_hashes st")
    case True
    have "zksynclite_transactions (log_msg did_not_add st) = zksynclite_transactions st"
      by (simp add: log_msg_def)
    then show ?thesis
      using True Cons.IH [of "log_msg did_not_add st"] by (simp add: insert_transaction_dup)
  next
    case False
    from insert_transaction_new [OF False] obtain st1 row_id where
        i: "insert_transaction t st = Inr (st1, row_id)"
        "zksynclite_transactions st1 = zksynclite_transactions st @
           [\<lparr>row_identifier = row_id, row_tx = t\<lparr>swap_data := None\<rparr>, is_decoded = False\<rparr>]"
      by blast
    have p: "prefix (zksynclite_transactions st) (zksynclite_transactions st1)"
      using i(2) by simp
    show ?thesis
    proof (cases "tx_type t = SWAP")
      case False
      then show ?thesis
        using i(1) p Cons.IH [of st1] by (auto intro: prefix_order.trans)
    next
      case True
      show ?thesis
      proof (cases "swap_data t")
        case None
        then show ?thesis using True i(1) p by simp
      next
        case (Some sd)
        have "zksynclite_transactions (insert_swap row_id sd st1) = zksynclite_transactions st1"
          by (simp add: insert_swap_def)
        then show ?thesis
          using True Some i(1) p Cons.IH [of "insert_swap row_id sd st1"]
          by (auto intro: prefix_order.trans)
      qed
    qed
  qed
qed

lemma save_batches_prefix:
  "prefix (zksynclite_transactions st)
     (zksynclite_transactions (fst (save_batches loc dir batches cs ce input st)))"
proof (induction batches arbitrary: cs ce input st)
  case Nil
  show ?case by simp
next
  case (Cons b bs)
  show ?case
  proof (cases "length b = 0")
    case True
    then show ?thesis using Cons.IH by simp
  next
    case False
    define u where "u = (if length (filter (\<lambda>t. t \<in> set input) (remdups b)) \<noteq> 0
        then filter (\<lambda>t. t \<notin> set input) (remdups b) else remdups b)"
    obtain st1 r where a: "add_zksynctxs_db u st = (st1, r)"
      by (cases "add_zksynctxs_db u st") auto
    have p: "prefix (zksynclite_transactions st) (zksynclite_transactions st1)"
      using add_zksynctxs_db_prefix [of st u] a by simp
    show ?thesis
    proof (cases r)
      case (Inl e)
      then show ?thesis using False a p by (simp add: Let_def u_def)
    next
      case (Inr x)
      define cs' where "cs' = (if dir = older then timestamp (last b) else cs)"
      define ce' where "ce' = (if dir = older then ce else timestamp (last b))"
      define st2 where "st2 = update_used_query_range loc (cs', ce') st1"
      have "zksynclite_transactions st2 = zksynclite_transactions st1"
        by (simp add: st2_def update_used_query_range_def)
      with p have p2: "prefix (zksynclite_transactions st) (zksynclite_transactions st2)" by simp
      have "save_batches loc dir (b # bs) cs ce input st
          = save_batches loc dir bs cs' ce' (input @ u) st2"
        using False a Inr by (simp add: Let_def u_def cs'_def ce'_def st2_def)
      then show ?thesis
        using Cons.IH [of st2 cs' ce' "input @ u"] p2 by (auto intro: prefix_order.trans)
    qed
  qed
qed

lemma walk_prefix:
  assumes "query_and_save_transactions_for_range H sess st address start_ts end_ts from_hash dir calls
             = Some (st', r)"
  shows "prefix (zksynclite_transactions st) (zksynclite_transactions st')"
proof -
  from assms obtain batches c ending where
      g: "query_zksync_api_transactions H sess address from_hash dir calls = Some (batches, c, ending)"
    by (auto simp: query_and_save_transactions_for_range_def split: option.splits)
  with assms have
      "st' = fst (save_batches (ZKSYNCLITE_TX_SAVEPREFIX H @ address) dir batches start_ts end_ts [] st)"
    by (auto simp: query_and_save_transactions_for_range_def split: prod.splits sum.splits)
  then show ?thesis using save_batches_prefix by simp
qed

lemma run_walks_prefix:
  "run_walks H sess address walks calls st = Some (st', r) \<Longrightarrow>
     prefix (zksynclite_transactions st) (zksynclite_transactions st')"
proof (induction walks arbitrary: calls st)
  case Nil
  then show ?case by simp
next
  case (Cons w ws)
  obtain s e h d where w: "w = (s, e, h, d)" by (cases w) auto
  from Cons.prems obtain st1 r1 where
      q: "query_and_save_transactions_for_range H sess st address s e (JStr h) d calls = Some (st1, r1)"
    by (auto simp: w split: option.splits)
  have p: "prefix (zksynclite_transactions st) (zksynclite_transactions st1)"
    using walk_prefix [OF q] .
  show ?case
  proof (cases r1)
    case (Inl err)
    with Cons.prems q have "st' = st1" by (simp add: w)
    with p show ?thesis by simp
  next
    case (Inr c)
    with Cons.prems q have "run_walks H sess address ws c st1 = Some (st', r)" by (simp add: w)
    from Cons.IH [OF this] p show ?thesis by (auto intro: prefix_order.trans)
  qed
qed

lemma walk_keeps_saved_batches:
  assumes "query_zksync_api_transactions H sess address from_hash dir calls
             = Some (batches, c, Inl RemoteError)"
    and "save_batches (ZKSYNCLITE_TX_SAVEPREFIX H @ address) dir batches start_ts end_ts [] st
           = (st1, Inr ())"
  shows "query_and_save_transactions_for_range H sess st address start_ts end_ts from_hash dir calls
           = Some (st1, Inl RemoteError)"
  using assms by (simp add: query_and_save_transactions_for_range_def)

lemma fetch_never_raises_remote_error:
  assumes "fetch_transactions H sess st address start_ts end_ts calls = Some (st', r)"
  shows "r \<noteq> Inl RemoteError"
proof (cases "planned_walks st address start_ts end_ts")
  case (Inl e)
  then have "e = TypeError"
    by (auto simp: planned_walks_def Let_def split: prod.splits option.splits if_splits)
  with Inl assms show ?thesis by (auto simp: fetch_transactions_def)
next
  case (Inr walks)
  with assms show ?thesis
    by (auto simp: fetch_transactions_def split: option.splits sum.splits if_splits)
qed

text \<open>
  C8. Whenever the walks of \<^verbatim>\<open>fetch_transactions\<close> end in a \<^verbatim>\<open>RemoteError\<close>, with the
  database in the state \<open>st1\<close> (the state after the last batch that was saved, since each
  batch is saved before the generator is resumed), the call returns normally: the state
  it leaves is \<open>st1\<close> with one more log line, the stored transactions and swap legs are
  those of \<open>st1\<close>, and the rows stored before the call are still there, in place.
\<close>

theorem remote_error_is_caught:
  assumes plan: "planned_walks st address start_ts end_ts = Inr walks"
    and run: "run_walks H sess address walks calls st = Some (st1, Inl RemoteError)"
  shows "fetch_transactions H sess st address start_ts end_ts calls
           = Some (log_msg got_error st1, Inr ()) \<and>
         zksynclite_transactions (log_msg got_error st1) = zksynclite_transactions st1 \<and>
         zksynclite_swaps (log_msg got_error st1) = zksynclite_swaps st1 \<and>
         used_query_ranges (log_msg got_error st1) = used_query_ranges st1 \<and>
         logs (log_msg got_error st1) = logs st1 @ [got_error] \<and>
         prefix (zksynclite_transactions st) (zksynclite_transactions st1)"
proof -
  have "fetch_transactions H sess st address start_ts end_ts calls
      = Some (log_msg got_error st1, Inr ())"
    using plan run by (simp add: fetch_transactions_def)
  moreover have "prefix (zksynclite_transactions st) (zksynclite_transactions st1)"
    using run_walks_prefix [OF run] .
  ultimately show ?thesis by (simp add: log_msg_def)
qed

lemma failing_session_generator:
  "query_zksync_api_transactions example_env failing_session ''0xB'' (JStr ''latest'') older 0
     = Some ([ [deposit_tx ''aa'', deposit_tx ''cc''] ], 2, Inl RemoteError)"
  unfolding query_zksync_api_transactions_def
  apply (subst query_zksync_api_transactions_loop.simps)
  apply (simp add: session_defs failing_session_def normalizer_defs example_defs)
  apply (subst query_zksync_api_transactions_loop.simps)
  apply (simp add: session_defs failing_session_def)
  done

theorem remote_error_is_caught_witness:
  "\<exists>st'. fetch_transactions example_env failing_session (example_state []) ''0xB'' 0 1800000000 0
            = Some (st', Inr ()) \<and>
          map (\<lambda>r. tx_hash (row_tx r)) (zksynclite_transactions st') = [''aa'', ''cc''] \<and>
          logs st' = [got_error]"
proof -
  have plan: "planned_walks (example_state []) ''0xB'' 0 1800000000
      = Inr [(0, 1800000000, ''latest'', older)]"
    by (simp add: planned_walks_def Let_def fetchone_def select_tx_hash_max_timestamp_def
          select_tx_hash_min_timestamp_def example_state_def)
  obtain st1 where save: "save_batches (ZKSYNCLITE_TX_SAVEPREFIX example_env @ ''0xB'') older
        [ [deposit_tx ''aa'', deposit_tx ''cc''] ] 0 1800000000 [] (example_state []) = (st1, Inr ())"
      and rows: "map (\<lambda>r. tx_hash (row_tx r)) (zksynclite_transactions st1) = [''aa'', ''cc'']"
      and lg: "logs st1 = []"
    by (simp add: Let_def deposit_tx_def example_state_def insert_transaction_def
          stored_hashes_def update_used_query_range_def)
  have run: "run_walks example_env failing_session ''0xB'' [(0, 1800000000, ''latest'', older)] 0
      (example_state []) = Some (st1, Inl RemoteError)"
    using walk_keeps_saved_batches [OF failing_session_generator save] by simp
  from remote_error_is_caught [OF plan run]
  have "fetch_transactions example_env failing_session (example_state []) ''0xB'' 0 1800000000 0
      = Some (log_msg got_error st1, Inr ())"
    and "zksynclite_transactions (log_msg got_error st1) = zksynclite_transactions st1"
    and "logs (log_msg got_error st1) = logs st1 @ [got_error]"
    by simp_all
  with rows lg show ?thesis by simp
qed

end
